theory Spec2Isabelle
  imports Main "HOL-Library.Word" "HOL-Library.Sublist"
begin

unbundle bit_operations_syntax

section \<open>Packets and TCP header access (tcpelement.hh)\<close>

type_synonym byte = "8 word"
type_synonym tcp_seq_t = "32 word"

text \<open>Modelled from the spec: the TCP flag bits of clicknet/tcp.h, which is not part of
  the sources. The spec names the flags (SYN, ACK, FIN, RST); their values are the bits
  of the flags byte of the TCP header on the wire.\<close>

definition TH_FIN :: "8 word" where "TH_FIN = 0x01"
definition TH_SYN :: "8 word" where "TH_SYN = 0x02"
definition TH_RST :: "8 word" where "TH_RST = 0x04"
definition TH_PUSH :: "8 word" where "TH_PUSH = 0x08"
definition TH_ACK :: "8 word" where "TH_ACK = 0x10"

text \<open>Modelled from the spec: the macro SEQ_LT of clicknet/tcp.h, which is not part of the
  sources; the spec calls it the modulo-2^32 sequence comparison: x precedes y when the
  32-bit difference x - y, read as a signed number, is negative.\<close>

definition SEQ_LT :: "tcp_seq_t \<Rightarrow> tcp_seq_t \<Rightarrow> bool" where
  "SEQ_LT x y = (sint (x - y) < 0)"

text \<open>
  A packet. The header fields the code reads through \<open>ip_header()\<close> and
  \<open>tcp_header()\<close> are fields of the record, in host byte order (the code applies
  \<open>ntohs\<close>/\<open>ntohl\<close> at every read). \<open>pkt_data\<close> are the bytes from
  \<open>data()\<close> to \<open>end_data()\<close>, so \<open>length()\<close> is their number;
  \<open>pkt_tailroom\<close> are the bytes of the buffer behind them. \<open>transport_header\<close>
  is the position of the TCP header relative to \<open>data()\<close>. The last two fields are
  the middlebox annotations.
\<close>

record Packet =
  ip_hl :: "4 word"
  ip_len :: "16 word"
  ip_src :: "32 word"
  ip_dst :: "32 word"
  th_sport :: "16 word"
  th_dport :: "16 word"
  th_seq :: "32 word"
  th_ack :: "32 word"
  th_off :: "4 word"
  th_flags :: "8 word"
  transport_header :: int
  pkt_data :: "byte list"
  pkt_tailroom :: "byte list"
  contentOffset :: "16 word"
  annotationDirty :: bool

definition pkt_length :: "Packet \<Rightarrow> 32 word" where
  "pkt_length p = of_nat (length (pkt_data p))"

definition getSourceAddress :: "Packet \<Rightarrow> 32 word" where
  "getSourceAddress p = ip_src p"

definition getDestinationAddress :: "Packet \<Rightarrow> 32 word" where
  "getDestinationAddress p = ip_dst p"

definition getSourcePort :: "Packet \<Rightarrow> 16 word" where
  "getSourcePort p = th_sport p"

definition getDestinationPort :: "Packet \<Rightarrow> 16 word" where
  "getDestinationPort p = th_dport p"

definition getSequenceNumber :: "Packet \<Rightarrow> tcp_seq_t" where
  "getSequenceNumber p = th_seq p"

definition getAckNumber :: "Packet \<Rightarrow> tcp_seq_t" where
  "getAckNumber p = th_ack p"

definition setAckNumber :: "Packet \<Rightarrow> tcp_seq_t \<Rightarrow> Packet" where
  "setAckNumber p ack = p\<lparr>th_ack := ack\<rparr>"

definition getFlags :: "Packet \<Rightarrow> 8 word" where
  "getFlags p = th_flags p"

definition checkFlag :: "Packet \<Rightarrow> 8 word \<Rightarrow> bool" where
  "checkFlag p flag = (if th_flags p AND flag \<noteq> 0 then True else False)"

definition isSyn :: "Packet \<Rightarrow> bool" where
  "isSyn p = checkFlag p TH_SYN"

definition isFin :: "Packet \<Rightarrow> bool" where
  "isFin p = checkFlag p TH_FIN"

definition isRst :: "Packet \<Rightarrow> bool" where
  "isRst p = checkFlag p TH_RST"

definition isAck :: "Packet \<Rightarrow> bool" where
  "isAck p = checkFlag p TH_ACK"

text \<open>\<open>ip_len - iph_len - tcp_offset\<close> in unsigned 32-bit arithmetic: the two header
  lengths are the 4-bit fields shifted left by two.\<close>

definition getPayloadLength :: "Packet \<Rightarrow> 32 word" where
  "getPayloadLength p =
     (let iph_len = push_bit 2 (ucast (ip_hl p) :: 32 word);
          tcp_offset = push_bit 2 (ucast (th_off p) :: 32 word)
      in ucast (ip_len p) - iph_len - tcp_offset)"

definition getPayloadOffset :: "Packet \<Rightarrow> 16 word" where
  "getPayloadOffset p = word_of_int (transport_header p + 4 * uint (th_off p))"

definition isJustAnAck :: "Packet \<Rightarrow> bool" where
  "isJustAnAck p =
     (if getPayloadLength p > 0 then False
      else if th_flags p = TH_ACK then True else False)"

definition getNextSequenceNumber :: "Packet \<Rightarrow> tcp_seq_t" where
  "getNextSequenceNumber p =
     (let nextSeq = getSequenceNumber p + getPayloadLength p
      in if isFin p \<or> isSyn p then nextSeq + 1 else nextSeq)"

definition getContentOffset :: "Packet \<Rightarrow> 16 word" where
  "getContentOffset p = contentOffset p"

definition setContentOffset :: "Packet \<Rightarrow> 16 word \<Rightarrow> Packet" where
  "setContentOffset p off = p\<lparr>contentOffset := off\<rparr>"

definition setAnnotationDirty :: "Packet \<Rightarrow> bool \<Rightarrow> Packet" where
  "setAnnotationDirty p d = p\<lparr>annotationDirty := d\<rparr>"

section \<open>Connection state shared by the two directions\<close>

datatype TCPClosingState =
  OPEN | BEING_CLOSED_GRACEFUL | CLOSED_GRACEFUL | BEING_CLOSED_UNGRACEFUL | CLOSED_UNGRACEFUL

text \<open>Modelled from the spec: class ByteStreamMaintainer is not part of the sources. Its
  scalars are plain accessors (spec 4.1) and become fields; its ordered structure is a
  value of an arbitrary type \<open>'t\<close>, and the operations on it that TCPIn calls
  (initialize, mapAck, mapSeq, prune) are parameters, collected in \<open>maintainer_ops\<close>:
  nothing is assumed about what they compute.\<close>

record 't ByteStreamMaintainer =
  bsm_tree :: 't
  lastAckSent :: tcp_seq_t
  lastAckReceived :: tcp_seq_t
  ipSrc :: "32 word"
  ipDst :: "32 word"
  portSrc :: "16 word"
  portDst :: "16 word"

text \<open>Modelled from the spec: struct fcb_tcp_common is declared in a header that is not
  part of the sources: two per-direction maintainers and two closing states (spec 3),
  indexed by the flow direction. The retransmission timings are not modelled; a call to
  them is recorded in the trace.\<close>

record 't fcb_tcp_common =
  maintainers :: "'t ByteStreamMaintainer list"
  closingStates :: "TCPClosingState list"

record 't maintainer_ops =
  bsm_initialize :: "'t ByteStreamMaintainer \<Rightarrow> 't ByteStreamMaintainer"
  bsm_mapAck :: "'t ByteStreamMaintainer \<Rightarrow> tcp_seq_t \<Rightarrow> tcp_seq_t"
  bsm_mapSeq :: "'t ByteStreamMaintainer \<Rightarrow> tcp_seq_t \<Rightarrow> tcp_seq_t"
  bsm_prune :: "'t ByteStreamMaintainer \<Rightarrow> tcp_seq_t \<Rightarrow> 't ByteStreamMaintainer"
  new_fcb_tcp_common :: "'t fcb_tcp_common"

text \<open>IPFlowID(saddr, sport, daddr, dport).\<close>

type_synonym IPFlowID = "32 word \<times> 16 word \<times> 32 word \<times> 16 word"

text \<open>Modelled from the spec: class ModificationList is not part of the sources; a list
  is kept as the sequence of the \<open>addModification(position, length)\<close> calls it
  received, in call order.\<close>

type_synonym ModificationList = "(tcp_seq_t \<times> int) list"

text \<open>The per-direction part of the flow control block. A pointer to a pool or table that
  the code only stores is a flag telling whether it has been set.\<close>

record fcb_tcpin =
  poolModificationNodes :: bool
  poolModificationLists :: bool
  inChargeOfTcpCommon :: bool
  flowID :: "IPFlowID option"
  tableTcpCommon :: bool
  poolTcpCommon :: bool
  modificationLists :: "tcp_seq_t \<rightharpoonup> ModificationList"

text \<open>\<open>tcp_common\<close> is a pointer: an address of the store, \<open>None\<close> for NULL.\<close>

record fcb =
  tcp_common :: "nat option"
  tcpin :: fcb_tcpin

text \<open>The fields of a TCPIn element that the packet path uses. The memory pool of
  fcb_tcp_common structures is the next address it hands out.\<close>

record TCPIn =
  flowDirection :: nat
  tableFcbTcpCommon :: "IPFlowID \<rightharpoonup> nat"
  poolFcbTcpCommon :: nat

text \<open>Calls that leave TCPIn (to TCPOut, to the rest of the stack, to the retransmission
  timing, to the packet allocator) are recorded in a trace, in call order.
  \<open>SendAck\<close> and \<open>SendClosingPacket\<close> carry the index of the maintainer passed,
  then saddr, daddr, sport, dport, seq, ack (and graceful).\<close>

datatype action =
  Kill Packet
| SendAck nat "32 word" "32 word" "16 word" "16 word" tcp_seq_t tcp_seq_t
| SendClosingPacket nat "32 word" "32 word" "16 word" "16 word" tcp_seq_t tcp_seq_t bool
| SignalAck nat tcp_seq_t
| StackCloseConnection Packet bool bool
| StackRemoveBytes Packet "32 word" "32 word"
| StackInsertBytes Packet "32 word" "32 word"
| StackRequestMorePackets Packet
| StackSetPacketDirty Packet

datatype error = NullPointerDereference | DanglingPointer | BufferOverrun | AssertionFailed

text \<open>Everything a call on a TCPIn element can read or change: the element, the element
  of the return direction, the store of fcb_tcp_common structures, the flow control block
  of the packet, and the trace.\<close>

record 't state =
  this_el :: TCPIn
  return_el :: TCPIn
  heap :: "nat \<rightharpoonup> 't fcb_tcp_common"
  the_fcb :: fcb
  trace :: "action list"

definition getFlowDirection :: "'t state \<Rightarrow> nat" where
  "getFlowDirection s = flowDirection (this_el s)"

text \<open>Modelled from the spec: getOppositeFlowDirection is declared in a header that is not
  part of the sources; the directions are 0 and 1 and the opposite one is the other.\<close>

definition getOppositeFlowDirection :: "'t state \<Rightarrow> nat" where
  "getOppositeFlowDirection s = 1 - flowDirection (this_el s)"

text \<open>Reading through \<open>fcb->tcp_common\<close>: the address and the structure it holds.\<close>

definition deref_tcp_common :: "'t state \<Rightarrow> error + (nat \<times> 't fcb_tcp_common)" where
  "deref_tcp_common s =
     (case tcp_common (the_fcb s) of
        None \<Rightarrow> Inl NullPointerDereference
      | Some a \<Rightarrow> (case heap s a of None \<Rightarrow> Inl DanglingPointer | Some c \<Rightarrow> Inr (a, c)))"

definition emit :: "action \<Rightarrow> 't state \<Rightarrow> 't state" where
  "emit a s = s\<lparr>trace := trace s @ [a]\<rparr>"

section \<open>TCPIn (tcpin.cc)\<close>

definition getTCPCommon :: "TCPIn \<Rightarrow> IPFlowID \<Rightarrow> nat option" where
  "getTCPCommon el fid = tableFcbTcpCommon el fid"

definition ackPacket ::
  "'t maintainer_ops \<Rightarrow> 't state \<Rightarrow> Packet \<Rightarrow> bool \<Rightarrow> error + 't state" where
  "ackPacket ops s packet ackMapped =
     (case deref_tcp_common s of
        Inl e \<Rightarrow> Inl e
      | Inr (a, c) \<Rightarrow>
          let saddr = getDestinationAddress packet;
              daddr = getSourceAddress packet;
              sport = getDestinationPort packet;
              dport = getSourcePort packet;
              seq0 = getAckNumber packet;
              seq = (if ackMapped
                     then bsm_mapSeq ops (maintainers c ! getOppositeFlowDirection s) seq0
                     else seq0);
              ack0 = getSequenceNumber packet + getPayloadLength packet;
              ack = (if isFin packet \<or> isSyn packet then ack0 + 1 else ack0)
          in Inr (emit (SendAck (getOppositeFlowDirection s) saddr daddr sport dport seq ack) s))"

definition checkConnectionClosed ::
  "'t maintainer_ops \<Rightarrow> 't state \<Rightarrow> Packet \<Rightarrow> error + (bool \<times> 't state)" where
  "checkConnectionClosed ops s packet =
     (case deref_tcp_common s of
        Inl e \<Rightarrow> Inl e
      | Inr (a, c) \<Rightarrow>
          let closingState = closingStates c ! getFlowDirection s in
          if closingState \<noteq> OPEN then
            (if closingState = BEING_CLOSED_GRACEFUL \<or> closingState = CLOSED_GRACEFUL then
               (if isFin packet \<or> isSyn packet \<or> getPayloadLength packet > 0 then
                  (case ackPacket ops s packet False of
                     Inl e \<Rightarrow> Inl e
                   | Inr s' \<Rightarrow> Inr (False, s'))
                else Inr (False, s))
             else Inr (False, s))
          else Inr (True, s))"

text \<open>Writing through \<open>fcb->tcp_common\<close>.\<close>

definition store_tcp_common :: "nat \<Rightarrow> 't fcb_tcp_common \<Rightarrow> 't state \<Rightarrow> 't state" where
  "store_tcp_common a c s = s\<lparr>heap := (heap s)(a \<mapsto> c)\<rparr>"

text \<open>The four setters that end assignTCPCommon, on the maintainer of this direction
  (the ports are passed as the source has them).\<close>

definition setFlowInformation :: "Packet \<Rightarrow> 't ByteStreamMaintainer \<Rightarrow> 't ByteStreamMaintainer" where
  "setFlowInformation packet m =
     m\<lparr>ipSrc := getSourceAddress packet,
       ipDst := getDestinationAddress packet,
       portSrc := getDestinationPort packet,
       portDst := getSourcePort packet\<rparr>"

text \<open>assignTCPCommon. On the SYN+ACK branch the pointer returned by getTCPCommon is
  stored and dereferenced at once; the source has no test between the two.\<close>

definition assignTCPCommon ::
  "'t maintainer_ops \<Rightarrow> 't state \<Rightarrow> Packet \<Rightarrow> error + (bool \<times> 't state)" where
  "assignTCPCommon ops s packet =
     (let flags = th_flags packet; d = getFlowDirection s in
      if flags AND TH_SYN = 0 then Inr (False, s)
      else
        (case
           (if flags AND TH_ACK \<noteq> 0 then
              (let fid = (ip_dst packet, th_dport packet, ip_src packet, th_sport packet);
                   s1 = s\<lparr>the_fcb := (the_fcb s)\<lparr>tcp_common := getTCPCommon (return_el s) fid\<rparr>\<rparr>
               in case deref_tcp_common s1 of
                    Inl e \<Rightarrow> Inl e
                  | Inr (a, c) \<Rightarrow>
                      let c1 = c\<lparr>maintainers := (maintainers c)[d := bsm_initialize ops (maintainers c ! d)]\<rparr>;
                          s2 = store_tcp_common a c1 s1
                      in Inr (s2\<lparr>the_fcb := (the_fcb s2)\<lparr>tcpin :=
                                 (tcpin (the_fcb s2))\<lparr>inChargeOfTcpCommon := False\<rparr>\<rparr>\<rparr>))
            else
              (let fid = (ip_src packet, th_sport packet, ip_dst packet, th_dport packet);
                   allocated = poolFcbTcpCommon (this_el s);
                   el1 = (this_el s)\<lparr>poolFcbTcpCommon := allocated + 1\<rparr>;
                   el2 = el1\<lparr>tableFcbTcpCommon := (tableFcbTcpCommon el1)(fid \<mapsto> allocated)\<rparr>;
                   c = new_fcb_tcp_common ops;
                   c1 = c\<lparr>maintainers := (maintainers c)[d := bsm_initialize ops (maintainers c ! d)]\<rparr>;
                   s1 = s\<lparr>this_el := el2, heap := (heap s)(allocated \<mapsto> c1)\<rparr>
               in Inr (s1\<lparr>the_fcb := (the_fcb s1)\<lparr>tcp_common := Some allocated,
                            tcpin := (tcpin (the_fcb s1))\<lparr>inChargeOfTcpCommon := True,
                               flowID := Some fid, tableTcpCommon := True,
                               poolTcpCommon := True\<rparr>\<rparr>\<rparr>)))
         of
           Inl e \<Rightarrow> Inl e
         | Inr s3 \<Rightarrow>
             (case deref_tcp_common s3 of
                Inl e \<Rightarrow> Inl e
              | Inr (a, c) \<Rightarrow>
                  Inr (True, store_tcp_common a
                     (c\<lparr>maintainers := (maintainers c)[d := setFlowInformation packet (maintainers c ! d)]\<rparr>)
                     s3))))"

definition setPacketDirty :: "'t state \<Rightarrow> Packet \<Rightarrow> Packet \<times> 't state" where
  "setPacketDirty s packet =
     (let packet' = setAnnotationDirty packet True
      in (packet', emit (StackSetPacketDirty packet') s))"

text \<open>The part of processPacket that handles a set ACK flag. It returns the packet to
  forward, or \<open>None\<close> when the packet has been killed.\<close>

definition processAck ::
  "'t maintainer_ops \<Rightarrow> 't state \<Rightarrow> Packet \<Rightarrow> error + (Packet option \<times> 't state)" where
  "processAck ops s packet =
     (case deref_tcp_common s of
        Inl e \<Rightarrow> Inl e
      | Inr (a, c) \<Rightarrow>
          let d = getFlowDirection s; opp = getOppositeFlowDirection s;
              ackNumber = getAckNumber packet;
              newAckNumber = bsm_mapAck ops (maintainers c ! opp) ackNumber;
              ms1 = (maintainers c)[d := (maintainers c ! d)\<lparr>lastAckReceived := ackNumber\<rparr>];
              ms2 = ms1[opp := bsm_prune ops (ms1 ! opp) ackNumber];
              s1 = emit (SignalAck opp ackNumber) (store_tcp_common a (c\<lparr>maintainers := ms2\<rparr>) s)
          in if isJustAnAck packet \<and> SEQ_LT newAckNumber (lastAckSent (ms2 ! d))
             then Inr (None, emit (Kill packet) s1)
             else if ackNumber \<noteq> newAckNumber
             then (let (packet', s2) = setPacketDirty s1 (setAckNumber packet newAckNumber)
                   in Inr (Some packet', s2))
             else Inr (Some packet, s1))"

text \<open>The first lines of processPacket: the two pool pointers of the flow control block
  are set when they are NULL.\<close>

definition ensurePools :: "'t state \<Rightarrow> 't state" where
  "ensurePools s =
     s\<lparr>the_fcb := (the_fcb s)\<lparr>tcpin :=
         (tcpin (the_fcb s))\<lparr>poolModificationNodes := True, poolModificationLists := True\<rparr>\<rparr>\<rparr>"

text \<open>processPacket. \<open>uniqueify\<close> gives a private copy with the same content, so the
  packet value is carried on.\<close>

definition processPacket ::
  "'t maintainer_ops \<Rightarrow> 't state \<Rightarrow> Packet \<Rightarrow> error + (Packet option \<times> 't state)" where
  "processPacket ops s0 p =
     (let s = ensurePools s0
      in case
           (if tcp_common (the_fcb s) = None then
              (case assignTCPCommon ops s p of
                 Inl e \<Rightarrow> Inl e
               | Inr (ok, s1) \<Rightarrow> if \<not> ok then Inr (False, emit (Kill p) s1) else Inr (True, s1))
            else if isSyn p then Inr (False, emit (Kill p) s)
            else Inr (True, s))
         of
           Inl e \<Rightarrow> Inl e
         | Inr (False, s1) \<Rightarrow> Inr (None, s1)
         | Inr (True, s1) \<Rightarrow>
             (case checkConnectionClosed ops s1 p of
                Inl e \<Rightarrow> Inl e
              | Inr (False, s2) \<Rightarrow> Inr (None, emit (Kill p) s2)
              | Inr (True, s2) \<Rightarrow>
                  (case deref_tcp_common s2 of
                     Inl e \<Rightarrow> Inl e
                   | Inr (a, c) \<Rightarrow>
                       let packet = setContentOffset p (getPayloadOffset p);
                           seqNumber = getSequenceNumber packet;
                           lastAckSentOtherSide =
                             lastAckSent (maintainers c ! getOppositeFlowDirection s2)
                       in if \<not> isSyn packet \<and> SEQ_LT seqNumber lastAckSentOtherSide then
                            (case ackPacket ops s2 packet False of
                               Inl e \<Rightarrow> Inl e
                             | Inr s3 \<Rightarrow> Inr (None, emit (Kill packet) s3))
                          else if isAck packet then processAck ops s2 packet
                          else Inr (Some packet, s2))))"

definition closeConnection ::
  "'t maintainer_ops \<Rightarrow> 't state \<Rightarrow> Packet \<Rightarrow> bool \<Rightarrow> bool \<Rightarrow> error + (Packet \<times> 't state)" where
  "closeConnection ops s packet0 graceful bothSides =
     (let newFlag = (if graceful then TH_FIN else TH_RST);
          packet = packet0\<lparr>th_flags := th_flags packet0 OR newFlag\<rparr>;
          newStateSelf = (if \<not> graceful then BEING_CLOSED_UNGRACEFUL else BEING_CLOSED_GRACEFUL);
          newStateOther = (if \<not> graceful then CLOSED_UNGRACEFUL else CLOSED_GRACEFUL);
          d = getFlowDirection s; opp = getOppositeFlowDirection s
      in case deref_tcp_common s of
           Inl e \<Rightarrow> Inl e
         | Inr (a, c) \<Rightarrow>
             let c1 = c\<lparr>closingStates := (closingStates c)[d := newStateSelf]\<rparr>;
                 s1 = store_tcp_common a c1 s;
                 s2 = (if bothSides then
                         (let c2 = c1\<lparr>closingStates := (closingStates c1)[opp := newStateOther]\<rparr>;
                              saddr = getDestinationAddress packet;
                              daddr = getSourceAddress packet;
                              sport = getDestinationPort packet;
                              dport = getSourcePort packet;
                              seq = bsm_mapSeq ops (maintainers c2 ! opp) (getAckNumber packet);
                              ack0 = getSequenceNumber packet + getPayloadLength packet;
                              ack = (if isFin packet \<or> isSyn packet then ack0 + 1 else ack0)
                          in emit (SendClosingPacket opp saddr daddr sport dport seq ack graceful)
                               (store_tcp_common a c2 s1))
                       else s1)
             in Inr (packet, emit (StackCloseConnection packet graceful bothSides) s2))"

definition requestMorePackets ::
  "'t maintainer_ops \<Rightarrow> 't state \<Rightarrow> Packet \<Rightarrow> error + 't state" where
  "requestMorePackets ops s packet =
     (case ackPacket ops s packet True of
        Inl e \<Rightarrow> Inl e
      | Inr s1 \<Rightarrow> Inr (emit (StackRequestMorePackets packet) s1))"

subsection \<open>Byte editing hooks\<close>

text \<open>getModificationList: the list stored for the packet's sequence number. A missing
  one is created empty, with memory taken through the pool pointer of the flow control
  block (\<open>fcb->tcpin.poolModificationLists->getMemory()\<close>), and entered in the table;
  the pointer is NULL until processPacket has set it.\<close>

definition getModificationList ::
  "'t state \<Rightarrow> Packet \<Rightarrow> error + (ModificationList \<times> 't state)" where
  "getModificationList s packet =
     (let table = modificationLists (tcpin (the_fcb s)) in
      case table (getSequenceNumber packet) of
        Some l \<Rightarrow> Inr (l, s)
      | None \<Rightarrow>
          if \<not> poolModificationLists (tcpin (the_fcb s)) then Inl NullPointerDereference
          else Inr ([], s\<lparr>the_fcb := (the_fcb s)\<lparr>tcpin := (tcpin (the_fcb s))\<lparr>modificationLists :=
                   table(getSequenceNumber packet \<mapsto> [])\<rparr>\<rparr>\<rparr>))"

text \<open>\<open>getModificationList(fcb, packet)->addModification(position, length)\<close>: the
  list is reached through a pointer, so the entry of the table changes.\<close>

definition addModification ::
  "'t state \<Rightarrow> Packet \<Rightarrow> tcp_seq_t \<Rightarrow> int \<Rightarrow> error + 't state" where
  "addModification s packet position len =
     (case getModificationList s packet of
        Inl e \<Rightarrow> Inl e
      | Inr (l, s1) \<Rightarrow>
          let table = modificationLists (tcpin (the_fcb s1))
          in Inr (s1\<lparr>the_fcb := (the_fcb s1)\<lparr>tcpin := (tcpin (the_fcb s1))\<lparr>modificationLists :=
               table(getSequenceNumber packet \<mapsto> l @ [(position, len)])\<rparr>\<rparr>\<rparr>))"

text \<open>\<open>memmove(&buf[dst], &buf[src], n)\<close> inside one buffer; a range that leaves the
  buffer is an error.\<close>

definition memmove :: "byte list \<Rightarrow> nat \<Rightarrow> nat \<Rightarrow> nat \<Rightarrow> error + byte list" where
  "memmove buf dst src n =
     (if src + n \<le> length buf \<and> dst + n \<le> length buf
      then Inr (take dst buf @ take n (drop src buf) @ drop (dst + n) buf)
      else Inl BufferOverrun)"

text \<open>Modelled from the spec: Packet::take and Packet::put are declared in a header that
  is not part of the sources; the spec says that they shrink and grow the packet at its
  end. \<open>take\<close> gives the last bytes back to the tailroom. \<open>put\<close> takes bytes
  from the tailroom; when the tailroom is too short the packet is reallocated, and the
  bytes added beyond the old buffer (which the code leaves uninitialised) are zero.\<close>

definition pkt_take :: "Packet \<Rightarrow> 32 word \<Rightarrow> error + Packet" where
  "pkt_take p n =
     (if unat n \<le> length (pkt_data p)
      then Inr (p\<lparr>pkt_data := take (length (pkt_data p) - unat n) (pkt_data p),
                  pkt_tailroom := drop (length (pkt_data p) - unat n) (pkt_data p) @ pkt_tailroom p\<rparr>)
      else Inl AssertionFailed)"

definition pkt_put :: "Packet \<Rightarrow> 32 word \<Rightarrow> Packet" where
  "pkt_put p n =
     (if unat n \<le> length (pkt_tailroom p)
      then p\<lparr>pkt_data := pkt_data p @ take (unat n) (pkt_tailroom p),
             pkt_tailroom := drop (unat n) (pkt_tailroom p)\<rparr>
      else p\<lparr>pkt_data := pkt_data p @ pkt_tailroom p
                 @ replicate (unat n - length (pkt_tailroom p)) 0,
             pkt_tailroom := []\<rparr>)"

text \<open>The bytes of the buffer from \<open>data()\<close> on, moved inside the buffer; the packet
  keeps its length.\<close>

definition pkt_memmove :: "Packet \<Rightarrow> nat \<Rightarrow> nat \<Rightarrow> nat \<Rightarrow> error + Packet" where
  "pkt_memmove p dst src n =
     (case memmove (pkt_data p @ pkt_tailroom p) dst src n of
        Inl e \<Rightarrow> Inl e
      | Inr buf \<Rightarrow> Inr (p\<lparr>pkt_data := take (length (pkt_data p)) buf,
                          pkt_tailroom := drop (length (pkt_data p)) buf\<rparr>))"

definition removeBytes ::
  "'t state \<Rightarrow> Packet \<Rightarrow> 32 word \<Rightarrow> 32 word \<Rightarrow> error + (Packet \<times> 't state)" where
  "removeBytes s packet position0 len =
     (let seqNumber = getSequenceNumber packet;
          tcpOffset = getPayloadOffset packet;
          contentOffset = getContentOffset packet;
          position = position0 + ucast contentOffset
      in case addModification s packet (seqNumber + position - ucast tcpOffset) (- sint len) of
           Inl e \<Rightarrow> Inl e
         | Inr s1 \<Rightarrow>
             let bytesAfter = pkt_length packet - position
             in case pkt_memmove packet (unat position) (unat (position + len)) (unat bytesAfter) of
                  Inl e \<Rightarrow> Inl e
                | Inr packet1 \<Rightarrow>
                    (case pkt_take packet1 len of
                       Inl e \<Rightarrow> Inl e
                     | Inr packet2 \<Rightarrow>
                         Inr (packet2, emit (StackRemoveBytes packet2 position len) s1)))"

definition insertBytes ::
  "'t state \<Rightarrow> Packet \<Rightarrow> 32 word \<Rightarrow> 32 word \<Rightarrow> error + (Packet \<times> 't state)" where
  "insertBytes s packet position0 len =
     (let seqNumber = getSequenceNumber packet;
          tcpOffset = getPayloadOffset packet;
          contentOffset = getContentOffset packet;
          position = position0 + ucast contentOffset
      in case addModification s packet (seqNumber + position - ucast tcpOffset) (sint len) of
           Inl e \<Rightarrow> Inl e
         | Inr s1 \<Rightarrow>
             let bytesAfter = pkt_length packet - position;
                 newPacket = pkt_put packet len
             in case pkt_memmove newPacket (unat (position + len)) (unat position) (unat bytesAfter) of
                  Inl e \<Rightarrow> Inl e
                | Inr newPacket1 \<Rightarrow> Inr (newPacket1, s1))"

section \<open>The content iterator of the flow buffer (flowbuffer.hh)\<close>

text \<open>The buffer is the chain of its packets, linked by \<open>next()\<close>. The entry of an
  iterator is a pointer into the chain: the packet it points to followed by the packets
  behind it, and the empty list for NULL.\<close>

type_synonym FlowBuffer = "Packet list"

record FlowBufferContentIter =
  entry :: "Packet list"
  offsetInPacket :: "32 word"

text \<open>The loop that the constructor and \<open>operator++\<close> share: the sum and the
  comparison are in unsigned 32-bit arithmetic.\<close>

fun skipToContent :: "Packet list \<Rightarrow> 32 word \<Rightarrow> FlowBufferContentIter" where
  "skipToContent [] off = \<lparr>entry = [], offsetInPacket = off\<rparr>"
| "skipToContent (p # ps) off =
     (if ucast (getContentOffset p) + off \<ge> pkt_length p
      then skipToContent ps 0
      else \<lparr>entry = p # ps, offsetInPacket = off\<rparr>)"

text \<open>The constructor; \<open>posInFirstPacket\<close> is a C \<open>int\<close>, converted to the unsigned
  field.\<close>

definition newFlowBufferContentIter :: "Packet list \<Rightarrow> int \<Rightarrow> FlowBufferContentIter" where
  "newFlowBufferContentIter packets posInFirstPacket =
     skipToContent packets (word_of_int posInFirstPacket)"

text \<open>\<open>operator++\<close>; the assertion fails on a NULL entry.\<close>

definition iter_next :: "FlowBufferContentIter \<Rightarrow> error + FlowBufferContentIter" where
  "iter_next it =
     (case entry it of
        [] \<Rightarrow> Inl AssertionFailed
      | p # ps \<Rightarrow> Inr (skipToContent (p # ps) (offsetInPacket it + 1)))"

text \<open>\<open>operator*\<close>: the byte at \<open>getPacketContent() + offsetInPacket\<close>, where
  \<open>getPacketContent()\<close> is \<open>data() + getContentOffset()\<close>. The result is the index
  read and the byte there; an index behind the packet's data is an error.\<close>

definition iter_deref :: "FlowBufferContentIter \<Rightarrow> error + (nat \<times> byte)" where
  "iter_deref it =
     (case entry it of
        [] \<Rightarrow> Inl AssertionFailed
      | p # ps \<Rightarrow>
          let i = unat (getContentOffset p) + unat (offsetInPacket it)
          in if i < length (pkt_data p) then Inr (i, pkt_data p ! i) else Inl BufferOverrun)"

text \<open>The payload bytes of a packet, those from the content offset on, and the content of
  the buffer.\<close>

definition payload :: "Packet \<Rightarrow> byte list" where
  "payload p = drop (unat (getContentOffset p)) (pkt_data p)"

definition flowContent :: "FlowBuffer \<Rightarrow> byte list" where
  "flowContent fb = concat (map payload fb)"

text \<open>The iterator points at a payload byte: the position it reads, computed without
  wrap-around, lies inside the data of its packet.\<close>

definition iter_on_payload :: "FlowBufferContentIter \<Rightarrow> bool" where
  "iter_on_payload it =
     (case entry it of
        [] \<Rightarrow> True
      | p # ps \<Rightarrow> unat (getContentOffset p) + unat (offsetInPacket it) < length (pkt_data p))"

text \<open>The loop condition of the source, negated: what holds when the loop is left.\<close>

definition iter_loop_left :: "FlowBufferContentIter \<Rightarrow> bool" where
  "iter_loop_left it =
     (case entry it of
        [] \<Rightarrow> True
      | p # ps \<Rightarrow> ucast (getContentOffset p) + offsetInPacket it < pkt_length p)"

text \<open>Packets as Click holds them: \<open>length()\<close> is a 32-bit number.\<close>

definition packets_ok :: "Packet list \<Rightarrow> bool" where
  "packets_ok ps = list_all (\<lambda>p. length (pkt_data p) < 2 ^ 32) ps"

text \<open>The bytes an iterator has still to visit: the rest of the payload of its packet and
  the payloads of the packets behind it.\<close>

definition iter_rest :: "FlowBufferContentIter \<Rightarrow> byte list" where
  "iter_rest it =
     (case entry it of
        [] \<Rightarrow> []
      | p # ps \<Rightarrow> drop (unat (offsetInPacket it)) (payload p) @ flowContent ps)"

text \<open>Walking the buffer with the iterator: dereference and increment until the entry is
  NULL, at most \<open>n\<close> times, collecting the bytes read.\<close>

fun iter_collect :: "nat \<Rightarrow> FlowBufferContentIter \<Rightarrow> byte list" where
  "iter_collect 0 it = []"
| "iter_collect (Suc n) it =
     (case iter_deref it of
        Inl e \<Rightarrow> []
      | Inr (i, b) \<Rightarrow>
          (case iter_next it of
             Inl e \<Rightarrow> [b]
           | Inr it' \<Rightarrow> b # iter_collect n it'))"

section \<open>Sequence translation of the ByteStream Maintainer (spec 4.1)\<close>

text \<open>Modelled from the spec: class ByteStreamMaintainer is not part of the sources. The
  spec gives a sorted associative structure from original sequence numbers to signed
  deltas, here a list of (key, delta) pairs in ascending key order. Sequence numbers are
  the 32-bit \<open>tcp_seq_t\<close> of the code, compared as unsigned numbers; a delta is a
  signed integer, added modulo 2^32.
  insertModification sums the delta into an existing key and inserts a new key in order.
  mapSeq(s) is s plus the sum of the deltas with key \<open>\<le> s\<close>. mapAck(a) takes the
  largest key \<open>k\<close> with \<open>mapSeq k \<le> a\<close> and returns \<open>k + (a - mapSeq k)\<close>. It
  is total, as in the code, where its result is a \<open>tcp_seq_t\<close> that processPacket
  writes into the packet: when no key qualifies, nothing was edited at or before a, and a
  is returned unchanged (scenario S1 of the spec: without edits every ACK passes
  unchanged).\<close>

type_synonym modifications = "(tcp_seq_t \<times> int) list"

fun insertModification :: "modifications \<Rightarrow> tcp_seq_t \<Rightarrow> int \<Rightarrow> modifications" where
  "insertModification [] sq delta = [(sq, delta)]"
| "insertModification ((k, d) # M) sq delta =
     (if sq = k then (k, d + delta) # M
      else if sq < k then (sq, delta) # (k, d) # M
      else (k, d) # insertModification M sq delta)"

definition mapSeq :: "modifications \<Rightarrow> tcp_seq_t \<Rightarrow> tcp_seq_t" where
  "mapSeq M s = s + word_of_int (sum_list (map snd (filter (\<lambda>(k, d). k \<le> s) M)))"

definition mapAck :: "modifications \<Rightarrow> tcp_seq_t \<Rightarrow> tcp_seq_t" where
  "mapAck M a =
     (case filter (\<lambda>k. mapSeq M k \<le> a) (map fst M) of
        [] \<Rightarrow> a
      | k # ks \<Rightarrow> (let ke = fold max ks k in ke + (a - mapSeq M ke)))"

text \<open>The modifications a direction can hold: those recorded one by one.\<close>

fun recorded :: "(tcp_seq_t \<times> int) list \<Rightarrow> modifications" where
  "recorded [] = []"
| "recorded ((sq, delta) # es) = insertModification (recorded es) sq delta"

text \<open>mapSeq keeps the order between an original sequence number s and every edited key:
  a key is at or before s exactly when its image is at or before the image of s.\<close>

definition order_kept :: "modifications \<Rightarrow> tcp_seq_t \<Rightarrow> bool" where
  "order_kept M s = list_all (\<lambda>k. (k \<le> s) = (mapSeq M k \<le> mapSeq M s)) (map fst M)"

section \<open>Searching the flow buffer (spec 4.3)\<close>

text \<open>Modelled from the spec: FlowBuffer::searchInFlow is declared in flowbuffer.hh and
  defined in a file that is not part of the sources. The spec and the comment of the
  declaration give its result: 1 when the pattern is found, 0 when it is not found but
  could start at the end of the buffered content, -1 when it is not found and cannot.
  The model scans the content of the buffer from every position: \<open>match_here\<close>
  compares the pattern with the bytes at one position and tells whether the pattern is
  there (1), the content ends while the pattern still matches (0), or a byte differs
  (-1).\<close>

fun match_here :: "byte list \<Rightarrow> byte list \<Rightarrow> int" where
  "match_here [] cs = 1"
| "match_here (p # ps) [] = 0"
| "match_here (p # ps) (c # cs) = (if p = c then match_here ps cs else - 1)"

fun search_content :: "byte list \<Rightarrow> byte list \<Rightarrow> int" where
  "search_content pattern [] = - 1"
| "search_content pattern (c # cs) =
     (let here = match_here pattern (c # cs) in
      if here = 1 then 1
      else (let later = search_content pattern cs in
            if later = 1 then 1 else if here = 0 then 0 else later))"

definition searchInFlow :: "FlowBuffer \<Rightarrow> byte list \<Rightarrow> int" where
  "searchInFlow fb pattern = search_content pattern (flowContent fb)"

section \<open>Concrete connections and packets\<close>

text \<open>What a caller observes of a call: the error, or the value returned and the calls
  recorded in the trace.\<close>

definition observed :: "error + ('r \<times> 't state) \<Rightarrow> error + ('r \<times> action list)" where
  "observed r = (case r of Inl e \<Rightarrow> Inl e | Inr (v, s) \<Rightarrow> Inr (v, trace s))"

text \<open>A maintainer whose structure is one cumulative delta: mapSeq adds it, mapAck
  subtracts it, prune keeps it.\<close>

definition ex_maintainer :: "nat \<Rightarrow> tcp_seq_t \<Rightarrow> nat ByteStreamMaintainer" where
  "ex_maintainer delta las =
     \<lparr>bsm_tree = delta, lastAckSent = las, lastAckReceived = 0,
      ipSrc = 0, ipDst = 0, portSrc = 0, portDst = 0\<rparr>"

definition ex_common :: "nat ByteStreamMaintainer \<Rightarrow> nat ByteStreamMaintainer \<Rightarrow>
    TCPClosingState \<Rightarrow> TCPClosingState \<Rightarrow> nat fcb_tcp_common" where
  "ex_common m0 m1 c0 c1 = \<lparr>maintainers = [m0, m1], closingStates = [c0, c1]\<rparr>"

definition ex_ops :: "nat maintainer_ops" where
  "ex_ops = \<lparr>bsm_initialize = (\<lambda>m. m\<lparr>bsm_tree := 0\<rparr>),
            bsm_mapAck = (\<lambda>m a. a - of_nat (bsm_tree m)),
            bsm_mapSeq = (\<lambda>m x. x + of_nat (bsm_tree m)),
            bsm_prune = (\<lambda>m a. m),
            new_fcb_tcp_common = ex_common (ex_maintainer 0 0) (ex_maintainer 0 0) OPEN OPEN\<rparr>"

definition ex_fcb_tcpin :: fcb_tcpin where
  "ex_fcb_tcpin = \<lparr>poolModificationNodes = False, poolModificationLists = False,
      inChargeOfTcpCommon = False, flowID = None, tableTcpCommon = False,
      poolTcpCommon = False, modificationLists = Map.empty\<rparr>"

definition ex_element :: "nat \<Rightarrow> TCPIn" where
  "ex_element d = \<lparr>flowDirection = d, tableFcbTcpCommon = Map.empty, poolFcbTcpCommon = 0\<rparr>"

text \<open>The element of direction 0 with a flow control block whose connection structure
  lives at address 7.\<close>

definition ex_state :: "nat fcb_tcp_common \<Rightarrow> nat state" where
  "ex_state c = \<lparr>this_el = ex_element 0, return_el = ex_element 1,
      heap = [7 \<mapsto> c], the_fcb = \<lparr>tcp_common = Some 7, tcpin = ex_fcb_tcpin\<rparr>, trace = []\<rparr>"

text \<open>The element of direction 1 before the first packet of its direction: no connection
  structure yet, and nothing in the table of the return element.\<close>

definition ex_state_unassigned :: "nat state" where
  "ex_state_unassigned = \<lparr>this_el = ex_element 1, return_el = ex_element 0,
      heap = Map.empty, the_fcb = \<lparr>tcp_common = None, tcpin = ex_fcb_tcpin\<rparr>, trace = []\<rparr>"

text \<open>The element of direction 1 before the first packet of its direction, when the other
  direction has published the connection structure at address 7 in the table of the
  return element, under the 4-tuple 10.0.0.2:80 to 10.0.0.1:40000.\<close>

definition ex_state_responder :: "nat fcb_tcp_common \<Rightarrow> nat state" where
  "ex_state_responder c = \<lparr>this_el = ex_element 1,
      return_el = (ex_element 0)\<lparr>tableFcbTcpCommon :=
                     [(0x0A000002, 80, 0x0A000001, 40000) \<mapsto> 7]\<rparr>,
      heap = [7 \<mapsto> c], the_fcb = \<lparr>tcp_common = None, tcpin = ex_fcb_tcpin\<rparr>, trace = []\<rparr>"

text \<open>A packet from 10.0.0.1:40000 to 10.0.0.2:80 with 20-byte IP and TCP headers, the
  given sequence number, acknowledgment number, flags and payload, and 16 bytes of
  tailroom.\<close>

definition ex_packet :: "tcp_seq_t \<Rightarrow> tcp_seq_t \<Rightarrow> 8 word \<Rightarrow> byte list \<Rightarrow> Packet" where
  "ex_packet sq ak fl bytes =
     \<lparr>ip_hl = 5, ip_len = of_nat (40 + length bytes), ip_src = 0x0A000001, ip_dst = 0x0A000002,
      th_sport = 40000, th_dport = 80, th_seq = sq, th_ack = ak, th_off = 5, th_flags = fl,
      transport_header = 20, pkt_data = replicate 40 0 @ bytes, pkt_tailroom = replicate 16 0,
      contentOffset = 40, annotationDirty = False\<rparr>"

section \<open>Properties\<close>

subsection \<open>Facts about the concrete packets\<close>

lemma ex_packet_payload_length_3 [simp]:
  "getPayloadLength (ex_packet sq ak fl [b1, b2, b3]) = 3"
  by (simp add: getPayloadLength_def ex_packet_def)

lemma ex_packet_payload_length_0 [simp]:
  "getPayloadLength (ex_packet sq ak fl []) = 0"
  by (simp add: getPayloadLength_def ex_packet_def)

lemma ex_packet_fields [simp]:
  "ip_src (ex_packet sq ak fl bs) = 0x0A000001"
  "ip_dst (ex_packet sq ak fl bs) = 0x0A000002"
  "th_sport (ex_packet sq ak fl bs) = 40000"
  "th_dport (ex_packet sq ak fl bs) = 80"
  "th_seq (ex_packet sq ak fl bs) = sq"
  "th_ack (ex_packet sq ak fl bs) = ak"
  "th_flags (ex_packet sq ak fl bs) = fl"
  by (simp_all add: ex_packet_def)

lemma ex_state_fields [simp]:
  "tcp_common (the_fcb (ex_state c)) = Some 7"
  "heap (ex_state c) 7 = Some c"
  "flowDirection (this_el (ex_state c)) = 0"
  "trace (ex_state c) = []"
  by (simp_all add: ex_state_def ex_element_def)

lemma ex_common_fields [simp]:
  "maintainers (ex_common m0 m1 c0 c1) = [m0, m1]"
  "closingStates (ex_common m0 m1 c0 c1) = [c0, c1]"
  by (simp_all add: ex_common_def)

subsection \<open>ACK crafting\<close>

text \<open>C8. On a flow control block that has its connection structure, ackPacket(packet,
  ackMapped) makes exactly one call, sendAck, with the maintainer of the opposite
  direction and: source address and port the packet's destination address and port,
  destination address and port the packet's source address and port; sequence number the
  opposite maintainer's mapSeq of the packet's ACK number when ackMapped is true and the
  packet's ACK number unchanged otherwise; ACK number the packet's sequence number plus
  its payload length, plus one when the packet has the FIN or the SYN flag.\<close>

theorem ackPacket_crafts_ack:
  assumes "tcp_common (the_fcb s) = Some a" and "heap s a = Some c"
  shows "ackPacket ops s packet ackMapped =
           Inr (emit (SendAck (getOppositeFlowDirection s)
                  (getDestinationAddress packet) (getSourceAddress packet)
                  (getDestinationPort packet) (getSourcePort packet)
                  (if ackMapped
                   then bsm_mapSeq ops (maintainers c ! getOppositeFlowDirection s)
                          (getAckNumber packet)
                   else getAckNumber packet)
                  (getSequenceNumber packet + getPayloadLength packet
                     + (if isFin packet \<or> isSyn packet then 1 else 0))) s)"
  using assms
  by (simp add: ackPacket_def deref_tcp_common_def Let_def)

theorem ackPacket_crafts_ack_witness:
  "ackPacket ex_ops (ex_state (ex_common (ex_maintainer 0 0) (ex_maintainer 3 0) OPEN OPEN))
      (ex_packet 1001 5001 0x11 [1, 2, 3]) True
   = Inr (emit (SendAck 1 0x0A000002 0x0A000001 80 40000 5004 1005)
        (ex_state (ex_common (ex_maintainer 0 0) (ex_maintainer 3 0) OPEN OPEN)))"
  using ackPacket_crafts_ack [of "ex_state (ex_common (ex_maintainer 0 0) (ex_maintainer 3 0) OPEN OPEN)"
      7 "ex_common (ex_maintainer 0 0) (ex_maintainer 3 0) OPEN OPEN" ex_ops
      "ex_packet 1001 5001 0x11 [1, 2, 3]" True]
  by (simp add: ex_maintainer_def ex_ops_def
      getOppositeFlowDirection_def getDestinationAddress_def getSourceAddress_def
      getDestinationPort_def getSourcePort_def getAckNumber_def getSequenceNumber_def
      isFin_def isSyn_def checkFlag_def TH_FIN_def TH_SYN_def)

subsection \<open>Frame facts\<close>

lemma ensurePools_frame [simp]:
  "tcp_common (the_fcb (ensurePools s)) = tcp_common (the_fcb s)"
  "heap (ensurePools s) = heap s"
  "this_el (ensurePools s) = this_el s"
  "return_el (ensurePools s) = return_el s"
  "trace (ensurePools s) = trace s"
  by (simp_all add: ensurePools_def)

lemma emit_frame [simp]:
  "tcp_common (the_fcb (emit x s)) = tcp_common (the_fcb s)"
  "heap (emit x s) = heap s"
  "this_el (emit x s) = this_el s"
  "trace (emit x s) = trace s @ [x]"
  by (simp_all add: emit_def)

lemma direction_ensurePools [simp]:
  "getFlowDirection (ensurePools s) = getFlowDirection s"
  "getOppositeFlowDirection (ensurePools s) = getOppositeFlowDirection s"
  by (simp_all add: getFlowDirection_def getOppositeFlowDirection_def)

lemma deref_tcp_common_live:
  "tcp_common (the_fcb s) = Some a \<Longrightarrow> heap s a = Some c \<Longrightarrow> deref_tcp_common s = Inr (a, c)"
  by (simp add: deref_tcp_common_def)

lemma isSyn_setContentOffset [simp]: "isSyn (setContentOffset p x) = isSyn p"
  by (simp add: isSyn_def checkFlag_def setContentOffset_def)

subsection \<open>The closing check\<close>



text \<open>The two ways a first packet gets its connection structure: the SYN+ACK of the
  responder finds the one published by the other direction, the SYN of the initiator
  allocates a new one. Neither changes the closing states or records a call.\<close>

lemma assignTCPCommon_responder:
  assumes "tcp_common (the_fcb s) = None"
    and "th_flags p AND TH_SYN \<noteq> 0" and "th_flags p AND TH_ACK \<noteq> 0"
    and "getTCPCommon (return_el s) (ip_dst p, th_dport p, ip_src p, th_sport p) = Some a"
    and "heap s a = Some c"
  shows "\<exists>s1 c1. assignTCPCommon ops s p = Inr (True, s1)
           \<and> tcp_common (the_fcb s1) = Some a \<and> heap s1 a = Some c1
           \<and> closingStates c1 = closingStates c \<and> trace s1 = trace s
           \<and> this_el s1 = this_el s"
  using assms
  by (simp add: assignTCPCommon_def Let_def deref_tcp_common_def store_tcp_common_def)

lemma assignTCPCommon_initiator:
  assumes "tcp_common (the_fcb s) = None"
    and "th_flags p AND TH_SYN \<noteq> 0" and "th_flags p AND TH_ACK = 0"
  shows "\<exists>s1 c1. assignTCPCommon ops s p = Inr (True, s1)
           \<and> tcp_common (the_fcb s1) = Some (poolFcbTcpCommon (this_el s))
           \<and> heap s1 (poolFcbTcpCommon (this_el s)) = Some c1
           \<and> closingStates c1 = closingStates (new_fcb_tcp_common ops) \<and> trace s1 = trace s
           \<and> flowDirection (this_el s1) = flowDirection (this_el s)"
  using assms
  by (simp add: assignTCPCommon_def Let_def deref_tcp_common_def store_tcp_common_def)

text \<open>The closing check and what follows it, on a structure whose closing state is not
  OPEN.\<close>

lemma closing_check_drops:
  assumes "tcp_common (the_fcb s1) = Some a" and "heap s1 a = Some c1"
    and "closingStates c1 ! getFlowDirection s1 \<noteq> OPEN"
  shows "checkConnectionClosed ops s1 p =
     Inr (False,
       if (closingStates c1 ! getFlowDirection s1 = BEING_CLOSED_GRACEFUL
             \<or> closingStates c1 ! getFlowDirection s1 = CLOSED_GRACEFUL)
           \<and> (isFin p \<or> isSyn p \<or> getPayloadLength p > 0)
       then emit (SendAck (getOppositeFlowDirection s1)
                (getDestinationAddress p) (getSourceAddress p)
                (getDestinationPort p) (getSourcePort p)
                (getAckNumber p)
                (getSequenceNumber p + getPayloadLength p
                   + (if isFin p \<or> isSyn p then 1 else 0))) s1
       else s1)"
  using assms
  by (simp add: checkConnectionClosed_def ackPacket_def deref_tcp_common_live Let_def)

text \<open>C3, as the code has it. A packet arrives on a direction whose closing state is not
  OPEN: on a flow control block that has its connection structure, or as the first packet
  of its direction, a SYN+ACK that finds the structure of the connection in the table or
  a SYN that allocates it. processPacket drops the packet: it kills it and returns no
  packet. Before the kill an ACK is sent, by ackPacket with ackMapped = false (the
  sequence number of the ACK is the packet's ACK number, unmapped), exactly when the
  closing state is BEING_CLOSED_GRACEFUL or CLOSED_GRACEFUL and the packet carries
  payload, SYN or FIN, except for a SYN on a flow control block that already has its
  structure: that one is dropped as unexpected before the closing check. In the two
  ungraceful states nothing is sent.\<close>

theorem processPacket_closing_drops:
  assumes "closingStates c ! getFlowDirection s \<noteq> OPEN"
    and "(tcp_common (the_fcb s) = Some a \<and> heap s a = Some c)
       \<or> (tcp_common (the_fcb s) = None
           \<and> th_flags p AND TH_SYN \<noteq> 0 \<and> th_flags p AND TH_ACK \<noteq> 0
           \<and> getTCPCommon (return_el s) (ip_dst p, th_dport p, ip_src p, th_sport p) = Some a
           \<and> heap s a = Some c)
       \<or> (tcp_common (the_fcb s) = None
           \<and> th_flags p AND TH_SYN \<noteq> 0 \<and> th_flags p AND TH_ACK = 0
           \<and> c = new_fcb_tcp_common ops)"
  shows "\<exists>s'. processPacket ops s p = Inr (None, s')
     \<and> trace s' = trace s
         @ (if (closingStates c ! getFlowDirection s = BEING_CLOSED_GRACEFUL
                  \<or> closingStates c ! getFlowDirection s = CLOSED_GRACEFUL)
               \<and> (isFin p \<or> isSyn p \<or> getPayloadLength p > 0)
               \<and> (isSyn p \<longrightarrow> tcp_common (the_fcb s) = None)
            then [SendAck (getOppositeFlowDirection s)
                    (getDestinationAddress p) (getSourceAddress p)
                    (getDestinationPort p) (getSourcePort p)
                    (getAckNumber p)
                    (getSequenceNumber p + getPayloadLength p
                       + (if isFin p \<or> isSyn p then 1 else 0))]
            else [])
         @ [Kill p]"
  using assms(2)
proof (elim disjE conjE)
  assume a: "tcp_common (the_fcb s) = Some a" "heap s a = Some c"
  show ?thesis
  proof (cases "isSyn p")
    case True
    with a show ?thesis by (simp add: processPacket_def Let_def)
  next
    case False
    have "closingStates c ! getFlowDirection (ensurePools s) \<noteq> OPEN" using assms(1) by simp
    from closing_check_drops [of "ensurePools s" a c, OF _ _ this] a False
    show ?thesis
      by (simp add: processPacket_def Let_def)
  qed
next
  assume n: "tcp_common (the_fcb s) = None"
    and f: "th_flags p AND TH_SYN \<noteq> 0" "th_flags p AND TH_ACK \<noteq> 0"
    and l: "getTCPCommon (return_el s) (ip_dst p, th_dport p, ip_src p, th_sport p) = Some a"
      "heap s a = Some c"
  from assignTCPCommon_responder [of "ensurePools s" p a c ops] n f l
  obtain s1 c1 where s1: "assignTCPCommon ops (ensurePools s) p = Inr (True, s1)"
    "tcp_common (the_fcb s1) = Some a" "heap s1 a = Some c1"
    "closingStates c1 = closingStates c" "trace s1 = trace s" "this_el s1 = this_el s"
    by auto
  have d: "getFlowDirection s1 = getFlowDirection s"
    "getOppositeFlowDirection s1 = getOppositeFlowDirection s"
    using s1(6) by (simp_all add: getFlowDirection_def getOppositeFlowDirection_def)
  have "closingStates c1 ! getFlowDirection s1 \<noteq> OPEN" using assms(1) s1(4) d by simp
  from closing_check_drops [OF s1(2,3) this, of ops p] s1 d n
  show ?thesis
    by (simp add: processPacket_def Let_def)
next
  assume n: "tcp_common (the_fcb s) = None"
    and f: "th_flags p AND TH_SYN \<noteq> 0" "th_flags p AND TH_ACK = 0"
    and c: "c = new_fcb_tcp_common ops"
  from assignTCPCommon_initiator [of "ensurePools s" p ops] n f
  obtain s1 c1 where s1: "assignTCPCommon ops (ensurePools s) p = Inr (True, s1)"
    "tcp_common (the_fcb s1) = Some (poolFcbTcpCommon (this_el s))"
    "heap s1 (poolFcbTcpCommon (this_el s)) = Some c1"
    "closingStates c1 = closingStates (new_fcb_tcp_common ops)" "trace s1 = trace s"
    "flowDirection (this_el s1) = flowDirection (this_el s)"
    by auto
  have d: "getFlowDirection s1 = getFlowDirection s"
    "getOppositeFlowDirection s1 = getOppositeFlowDirection s"
    using s1(6) by (simp_all add: getFlowDirection_def getOppositeFlowDirection_def)
  have "closingStates c1 ! getFlowDirection s1 \<noteq> OPEN" using assms(1) s1(4) d c by simp
  from closing_check_drops [OF s1(2,3) this, of ops p] s1 d n c
  show ?thesis
    by (simp add: processPacket_def Let_def)
qed


theorem processPacket_closing_drops_witness:
  "(\<exists>s'. processPacket ex_ops
        (ex_state (ex_common (ex_maintainer 0 0) (ex_maintainer 0 0) BEING_CLOSED_GRACEFUL OPEN))
        (ex_packet 5000 1999 0x10 [1, 2, 3]) = Inr (None, s')
      \<and> trace s' = [SendAck 1 0x0A000002 0x0A000001 80 40000 1999 5003,
                      Kill (ex_packet 5000 1999 0x10 [1, 2, 3])])
   \<and> (\<exists>s'. processPacket ex_ops
        (ex_state_responder (ex_common (ex_maintainer 0 0) (ex_maintainer 0 0) OPEN CLOSED_GRACEFUL))
        (ex_packet 5000 1001 0x12 []) = Inr (None, s')
      \<and> trace s' = [SendAck 0 0x0A000002 0x0A000001 80 40000 1001 5001,
                      Kill (ex_packet 5000 1001 0x12 [])])"
proof
  show "\<exists>s'. processPacket ex_ops
        (ex_state (ex_common (ex_maintainer 0 0) (ex_maintainer 0 0) BEING_CLOSED_GRACEFUL OPEN))
        (ex_packet 5000 1999 0x10 [1, 2, 3]) = Inr (None, s')
      \<and> trace s' = [SendAck 1 0x0A000002 0x0A000001 80 40000 1999 5003,
                      Kill (ex_packet 5000 1999 0x10 [1, 2, 3])]"
    using processPacket_closing_drops [of
        "ex_common (ex_maintainer 0 0) (ex_maintainer 0 0) BEING_CLOSED_GRACEFUL OPEN"
        "ex_state (ex_common (ex_maintainer 0 0) (ex_maintainer 0 0) BEING_CLOSED_GRACEFUL OPEN)"
        7 "ex_packet 5000 1999 0x10 [1, 2, 3]" ex_ops]
    by (simp add: getFlowDirection_def getOppositeFlowDirection_def getDestinationAddress_def
        getSourceAddress_def getDestinationPort_def getSourcePort_def getAckNumber_def
        getSequenceNumber_def isFin_def isSyn_def checkFlag_def TH_FIN_def TH_SYN_def)
next
  have r: "tcp_common (the_fcb (ex_state_responder c)) = None"
    "flowDirection (this_el (ex_state_responder c)) = 1"
    "getTCPCommon (return_el (ex_state_responder c)) (0x0A000002, 80, 0x0A000001, 40000) = Some 7"
    "heap (ex_state_responder c) 7 = Some c"
    "trace (ex_state_responder c) = []" for c
    by (simp_all add: ex_state_responder_def ex_element_def getTCPCommon_def)
  show "\<exists>s'. processPacket ex_ops
        (ex_state_responder (ex_common (ex_maintainer 0 0) (ex_maintainer 0 0) OPEN CLOSED_GRACEFUL))
        (ex_packet 5000 1001 0x12 []) = Inr (None, s')
      \<and> trace s' = [SendAck 0 0x0A000002 0x0A000001 80 40000 1001 5001,
                      Kill (ex_packet 5000 1001 0x12 [])]"
    using processPacket_closing_drops [of
        "ex_common (ex_maintainer 0 0) (ex_maintainer 0 0) OPEN CLOSED_GRACEFUL"
        "ex_state_responder (ex_common (ex_maintainer 0 0) (ex_maintainer 0 0) OPEN CLOSED_GRACEFUL)"
        7 "ex_packet 5000 1001 0x12 []" ex_ops]
    by (simp add: r getFlowDirection_def getOppositeFlowDirection_def getDestinationAddress_def
        getSourceAddress_def getDestinationPort_def getSourcePort_def getAckNumber_def
        getSequenceNumber_def isFin_def isSyn_def checkFlag_def TH_FIN_def TH_SYN_def TH_ACK_def)
qed

text \<open>In the state BEING_CLOSED_UNGRACEFUL a packet with three bytes of payload is dropped
  and no ACK is sent: the only call recorded is the kill. The same holds in the state
  BEING_CLOSED_GRACEFUL for a packet with the SYN flag on a flow control block that has
  its connection structure.\<close>

theorem processPacket_closing_counterexample:
  "observed (processPacket ex_ops
      (ex_state (ex_common (ex_maintainer 0 0) (ex_maintainer 0 0) BEING_CLOSED_UNGRACEFUL OPEN))
      (ex_packet 5000 1999 0x10 [1, 2, 3]))
   = Inr (None, [Kill (ex_packet 5000 1999 0x10 [1, 2, 3])])
   \<and> getPayloadLength (ex_packet 5000 1999 0x10 [1, 2, 3]) = 3
   \<and> observed (processPacket ex_ops
      (ex_state (ex_common (ex_maintainer 0 0) (ex_maintainer 0 0) BEING_CLOSED_GRACEFUL OPEN))
      (ex_packet 5000 1999 0x02 [1, 2, 3]))
   = Inr (None, [Kill (ex_packet 5000 1999 0x02 [1, 2, 3])])
   \<and> isSyn (ex_packet 5000 1999 0x02 [1, 2, 3])"
  by code_simp

subsection \<open>Lost-ACK detection\<close>

lemma getters_setContentOffset [simp]:
  "getSequenceNumber (setContentOffset p x) = getSequenceNumber p"
  "getAckNumber (setContentOffset p x) = getAckNumber p"
  "getPayloadLength (setContentOffset p x) = getPayloadLength p"
  "getSourceAddress (setContentOffset p x) = getSourceAddress p"
  "getDestinationAddress (setContentOffset p x) = getDestinationAddress p"
  "getSourcePort (setContentOffset p x) = getSourcePort p"
  "getDestinationPort (setContentOffset p x) = getDestinationPort p"
  "isFin (setContentOffset p x) = isFin p"
  "isAck (setContentOffset p x) = isAck p"
  "isJustAnAck (setContentOffset p x) = isJustAnAck p"
  by (simp_all add: setContentOffset_def getSequenceNumber_def getAckNumber_def
      getPayloadLength_def getSourceAddress_def getDestinationAddress_def getSourcePort_def
      getDestinationPort_def isFin_def isAck_def checkFlag_def isJustAnAck_def)

lemma checkConnectionClosed_open:
  assumes "tcp_common (the_fcb s) = Some a" and "heap s a = Some c"
    and "closingStates c ! getFlowDirection s = OPEN"
  shows "checkConnectionClosed ops s p = Inr (True, s)"
  using assms by (simp add: checkConnectionClosed_def deref_tcp_common_live)

lemma processPacket_established_open:
  assumes "tcp_common (the_fcb s) = Some a" and "heap s a = Some c"
    and "closingStates c ! getFlowDirection s = OPEN" and "\<not> isSyn p"
  shows "processPacket ops s p =
     (let packet = setContentOffset p (getPayloadOffset p) in
      if SEQ_LT (getSequenceNumber p) (lastAckSent (maintainers c ! getOppositeFlowDirection s))
      then (case ackPacket ops (ensurePools s) packet False of
              Inl e \<Rightarrow> Inl e
            | Inr s3 \<Rightarrow> Inr (None, emit (Kill packet) s3))
      else if isAck p then processAck ops (ensurePools s) packet
      else Inr (Some packet, ensurePools s))"
proof -
  have cc: "checkConnectionClosed ops (ensurePools s) p = Inr (True, ensurePools s)"
    using assms by (intro checkConnectionClosed_open [of _ a c]) simp_all
  have live: "deref_tcp_common (ensurePools s) = Inr (a, c)"
    using assms by (simp add: deref_tcp_common_live)
  show ?thesis
    using assms cc live by (simp add: processPacket_def Let_def)
qed

text \<open>C4, as the code has it. On a flow control block that has its connection structure,
  with the closing state of the direction OPEN, a packet without the SYN flag whose
  sequence number is strictly less, in the modulo-2^32 sequence comparison, than the
  lastAckSent of the opposite direction makes processPacket re-send the ACK (ackPacket
  with ackMapped = false: the sequence number of the ACK is the packet's ACK number,
  unmapped), kill the packet and return no packet. The source guards the test with
  \<open>!isSyn(packet)\<close>.\<close>

theorem processPacket_lost_ack:
  assumes "tcp_common (the_fcb s) = Some a" and "heap s a = Some c"
    and "closingStates c ! getFlowDirection s = OPEN"
    and "\<not> isSyn p"
    and "SEQ_LT (getSequenceNumber p) (lastAckSent (maintainers c ! getOppositeFlowDirection s))"
  shows "processPacket ops s p =
     Inr (None, emit (Kill (setContentOffset p (getPayloadOffset p)))
       (emit (SendAck (getOppositeFlowDirection s)
                (getDestinationAddress p) (getSourceAddress p)
                (getDestinationPort p) (getSourcePort p)
                (getAckNumber p)
                (getSequenceNumber p + getPayloadLength p + (if isFin p then 1 else 0)))
          (ensurePools s)))"
proof -
  have live: "deref_tcp_common (ensurePools s) = Inr (a, c)"
    using assms by (simp add: deref_tcp_common_live)
  show ?thesis
    using assms live
    by (simp add: processPacket_established_open [OF assms(1-4)] ackPacket_def Let_def)
qed

text \<open>A packet with the SYN flag on an established, open connection, with sequence number
  1001 below the opposite lastAckSent 1011, is killed and no ACK is re-sent.\<close>

theorem processPacket_lost_ack_counterexample:
  "observed (processPacket ex_ops
      (ex_state (ex_common (ex_maintainer 0 0) (ex_maintainer 0 1011) OPEN OPEN))
      (ex_packet 1001 5001 0x12 [1, 2, 3]))
   = Inr (None, [Kill (ex_packet 1001 5001 0x12 [1, 2, 3])])
   \<and> SEQ_LT (getSequenceNumber (ex_packet 1001 5001 0x12 [1, 2, 3]))
        (lastAckSent (ex_maintainer 0 1011))"
  by code_simp

theorem processPacket_lost_ack_witness:
  "processPacket ex_ops
      (ex_state (ex_common (ex_maintainer 0 0) (ex_maintainer 0 1011) OPEN OPEN))
      (ex_packet 1001 5001 0x10 [1, 2, 3])
   = Inr (None, emit (Kill (setContentOffset (ex_packet 1001 5001 0x10 [1, 2, 3]) 40))
       (emit (SendAck 1 0x0A000002 0x0A000001 80 40000 5001 1004)
          (ensurePools (ex_state
             (ex_common (ex_maintainer 0 0) (ex_maintainer 0 1011) OPEN OPEN)))))"
  using processPacket_lost_ack [of
      "ex_state (ex_common (ex_maintainer 0 0) (ex_maintainer 0 1011) OPEN OPEN)"
      7 "ex_common (ex_maintainer 0 0) (ex_maintainer 0 1011) OPEN OPEN"
      "ex_packet 1001 5001 0x10 [1, 2, 3]" ex_ops]
  by (simp add: getFlowDirection_def getOppositeFlowDirection_def getDestinationAddress_def
      getSourceAddress_def getDestinationPort_def getSourcePort_def getAckNumber_def
      getSequenceNumber_def isFin_def isSyn_def checkFlag_def TH_FIN_def TH_SYN_def
      SEQ_LT_def ex_maintainer_def)
     (simp add: getPayloadOffset_def ex_packet_def)



subsection \<open>Redundant ACKs\<close>

lemma isJustAnAck_flags:
  assumes "isJustAnAck p"
  shows "\<not> isSyn p" and "isAck p" and "\<not> isFin p" and "getPayloadLength p = 0"
proof -
  from assms have f: "th_flags p = TH_ACK" and l: "\<not> getPayloadLength p > 0"
    by (auto simp: isJustAnAck_def split: if_splits)
  show "\<not> isSyn p" using f by (simp add: isSyn_def checkFlag_def TH_ACK_def TH_SYN_def)
  show "isAck p" using f by (simp add: isAck_def checkFlag_def TH_ACK_def)
  show "\<not> isFin p" using f by (simp add: isFin_def checkFlag_def TH_ACK_def TH_FIN_def)
  show "getPayloadLength p = 0" using l by (simp add: word_neq_0_conv [symmetric])
qed

lemma store_frame [simp]:
  "tcp_common (the_fcb (store_tcp_common a c s)) = tcp_common (the_fcb s)"
  "heap (store_tcp_common a c s) = (heap s)(a \<mapsto> c)"
  "this_el (store_tcp_common a c s) = this_el s"
  "trace (store_tcp_common a c s) = trace s"
  by (simp_all add: store_tcp_common_def)

text \<open>What processAck compares the mapped ACK with: the lastAckSent of this direction,
  which neither the update of lastAckReceived nor the pruning of the other maintainer
  changes.\<close>

lemma processAck_decision:
  assumes "tcp_common (the_fcb s) = Some a" and "heap s a = Some c"
    and "flowDirection (this_el s) < 2" and "length (maintainers c) = 2"
    and "isJustAnAck packet"
  shows "(\<exists>s'. processAck ops s packet = Inr (None, s'))
         \<longleftrightarrow> SEQ_LT (bsm_mapAck ops (maintainers c ! getOppositeFlowDirection s) (getAckNumber packet))
               (lastAckSent (maintainers c ! getFlowDirection s))"
proof -
  let ?d = "getFlowDirection s" and ?o = "getOppositeFlowDirection s"
  have neq: "?d \<noteq> ?o" and d: "?d < length (maintainers c)"
    using assms(3,4) by (simp_all add: getFlowDirection_def getOppositeFlowDirection_def) arith
  have las: "lastAckSent (((maintainers c)[?d := (maintainers c ! ?d)\<lparr>lastAckReceived := x\<rparr>])
                 [?o := y] ! ?d) = lastAckSent (maintainers c ! ?d)" for x y
    using neq d by simp
  show ?thesis
    using assms(1,2,5) las
    by (auto simp: processAck_def deref_tcp_common_live Let_def setPacketDirty_def
        split: if_splits prod.splits)
qed

text \<open>C2 at the boundary. On an established, open connection, a packet that is just an
  ACK, that passes the lost-ACK test, and whose mapped ACK number equals the lastAckSent
  of its direction is not dropped: processPacket returns a packet. The comparison in the
  source is the strict SEQ_LT, although its comment asks for an ACK value greater than the
  one already sent and drops the packet otherwise.\<close>

theorem processPacket_equal_ack_forwarded:
  assumes "tcp_common (the_fcb s) = Some a" and "heap s a = Some c"
    and "closingStates c ! getFlowDirection s = OPEN"
    and "flowDirection (this_el s) < 2" and "length (maintainers c) = 2"
    and "isJustAnAck p"
    and "\<not> SEQ_LT (getSequenceNumber p) (lastAckSent (maintainers c ! getOppositeFlowDirection s))"
    and "bsm_mapAck ops (maintainers c ! getOppositeFlowDirection s) (getAckNumber p)
           = lastAckSent (maintainers c ! getFlowDirection s)"
  shows "\<exists>packet s'. processPacket ops s p = Inr (Some packet, s')"
proof -
  let ?pk = "setContentOffset p (getPayloadOffset p)"
  have nosyn: "\<not> isSyn p" and ack: "isAck p"
    using assms(6) by (rule isJustAnAck_flags)+
  have pp: "processPacket ops s p = processAck ops (ensurePools s) ?pk"
    using assms(7) ack
    by (simp add: processPacket_established_open [OF assms(1-3) nosyn] Let_def)
  have "\<not> SEQ_LT x x" for x :: tcp_seq_t by (simp add: SEQ_LT_def)
  then have "\<not> (\<exists>s'. processAck ops (ensurePools s) ?pk = Inr (None, s'))"
    using processAck_decision [of "ensurePools s" a c ?pk ops] assms by simp
  moreover have "\<exists>r s'. processAck ops (ensurePools s) ?pk = Inr (r, s')"
    using assms(1,2)
    by (auto simp: processAck_def deref_tcp_common_live Let_def setPacketDirty_def
        split: prod.splits)
  ultimately show ?thesis
    unfolding pp by (metis option.exhaust)
qed

theorem processPacket_equal_ack_forwarded_witness:
  "\<exists>packet s'. processPacket ex_ops
      (ex_state (ex_common (ex_maintainer 0 2000) (ex_maintainer 0 0) OPEN OPEN))
      (ex_packet 5000 2000 0x10 []) = Inr (Some packet, s')"
  using processPacket_equal_ack_forwarded [of
      "ex_state (ex_common (ex_maintainer 0 2000) (ex_maintainer 0 0) OPEN OPEN)"
      7 "ex_common (ex_maintainer 0 2000) (ex_maintainer 0 0) OPEN OPEN"
      "ex_packet 5000 2000 0x10 []" ex_ops]
  by (simp add: getFlowDirection_def getOppositeFlowDirection_def isJustAnAck_def TH_ACK_def
      SEQ_LT_def getSequenceNumber_def getAckNumber_def ex_maintainer_def ex_ops_def)

text \<open>Strictly below lastAckSent the packet is dropped, as the source's test says.\<close>

lemma processPacket_old_ack_dropped:
  assumes "tcp_common (the_fcb s) = Some a" and "heap s a = Some c"
    and "closingStates c ! getFlowDirection s = OPEN"
    and "flowDirection (this_el s) < 2" and "length (maintainers c) = 2"
    and "isJustAnAck p"
    and "SEQ_LT (bsm_mapAck ops (maintainers c ! getOppositeFlowDirection s) (getAckNumber p))
           (lastAckSent (maintainers c ! getFlowDirection s))"
  shows "\<exists>s'. processPacket ops s p = Inr (None, s')"
proof -
  let ?pk = "setContentOffset p (getPayloadOffset p)"
  have nosyn: "\<not> isSyn p" and ack: "isAck p"
    using assms(6) by (rule isJustAnAck_flags)+
  have "\<exists>s'. processAck ops (ensurePools s) ?pk = Inr (None, s')"
    using processAck_decision [of "ensurePools s" a c ?pk ops] assms by simp
  then show ?thesis
    using ack assms(1,2)
    by (auto simp: processPacket_established_open [OF assms(1-3) nosyn] Let_def ackPacket_def
        deref_tcp_common_live)
qed

subsection \<open>Association of the connection structure\<close>

text \<open>C1 on the code. The first packet of a direction is a SYN+ACK, and the table of the
  return element has no entry for the reversed 4-tuple: getTCPCommon returns NULL,
  assignTCPCommon stores it in the flow control block and dereferences it in the next
  statement. processPacket does not return: the packet is neither dropped nor
  forwarded.\<close>

theorem processPacket_synack_lookup_failure:
  assumes "tcp_common (the_fcb s) = None"
    and "th_flags p AND TH_SYN \<noteq> 0" and "th_flags p AND TH_ACK \<noteq> 0"
    and "getTCPCommon (return_el s) (ip_dst p, th_dport p, ip_src p, th_sport p) = None"
  shows "processPacket ops s p = Inl NullPointerDereference"
  using assms
  by (simp add: processPacket_def assignTCPCommon_def Let_def deref_tcp_common_def ensurePools_def)

theorem processPacket_synack_lookup_failure_witness:
  "processPacket ex_ops ex_state_unassigned (ex_packet 5000 1001 0x12 []) = Inl NullPointerDereference"
  using processPacket_synack_lookup_failure [of ex_state_unassigned "ex_packet 5000 1001 0x12 []" ex_ops]
  by (simp add: ex_state_unassigned_def getTCPCommon_def ex_element_def TH_SYN_def TH_ACK_def)



text \<open>The two other rejections of processPacket return normally: a first packet of a
  direction without the SYN flag, and a SYN on a flow control block that already has its
  connection structure, are killed, nothing is sent and no packet is returned.\<close>

lemma processPacket_first_packet_not_syn:
  assumes "tcp_common (the_fcb s) = None" and "th_flags p AND TH_SYN = 0"
  shows "processPacket ops s p = Inr (None, emit (Kill p) (ensurePools s))"
  using assms by (simp add: processPacket_def assignTCPCommon_def Let_def)

lemma processPacket_unexpected_syn:
  assumes "tcp_common (the_fcb s) = Some a" and "isSyn p"
  shows "processPacket ops s p = Inr (None, emit (Kill p) (ensurePools s))"
  using assms by (simp add: processPacket_def Let_def)

subsection \<open>Closing a connection\<close>

lemma isFin_or_FIN [simp]: "isFin (p\<lparr>th_flags := th_flags p OR TH_FIN\<rparr>)"
proof -
  have "bit (th_flags p OR 1) 0" by (simp add: bit_simps)
  then have "bit ((th_flags p OR 1) AND 1) 0" by (simp add: bit_simps)
  then have "(th_flags p OR 1) AND 1 \<noteq> 0" by auto
  then show ?thesis by (simp add: isFin_def checkFlag_def TH_FIN_def)
qed

lemma isSyn_or_FIN [simp]: "isSyn (p\<lparr>th_flags := th_flags p OR TH_FIN\<rparr>) = isSyn p"
  by (simp add: isSyn_def checkFlag_def TH_FIN_def TH_SYN_def bit.conj_disj_distrib2)

lemma isSyn_or_RST [simp]: "isSyn (p\<lparr>th_flags := th_flags p OR TH_RST\<rparr>) = isSyn p"
  by (simp add: isSyn_def checkFlag_def TH_RST_def TH_SYN_def bit.conj_disj_distrib2)

lemma isFin_or_RST [simp]: "isFin (p\<lparr>th_flags := th_flags p OR TH_RST\<rparr>) = isFin p"
  by (simp add: isFin_def checkFlag_def TH_RST_def TH_FIN_def bit.conj_disj_distrib2)


lemma getters_set_flags [simp]:
  "getSequenceNumber (p\<lparr>th_flags := f\<rparr>) = getSequenceNumber p"
  "getAckNumber (p\<lparr>th_flags := f\<rparr>) = getAckNumber p"
  "getPayloadLength (p\<lparr>th_flags := f\<rparr>) = getPayloadLength p"
  "getSourceAddress (p\<lparr>th_flags := f\<rparr>) = getSourceAddress p"
  "getDestinationAddress (p\<lparr>th_flags := f\<rparr>) = getDestinationAddress p"
  "getSourcePort (p\<lparr>th_flags := f\<rparr>) = getSourcePort p"
  "getDestinationPort (p\<lparr>th_flags := f\<rparr>) = getDestinationPort p"
  by (simp_all add: getSequenceNumber_def getAckNumber_def getPayloadLength_def
      getSourceAddress_def getDestinationAddress_def getSourcePort_def getDestinationPort_def)

text \<open>C7, as the code has it. closeConnection(packet, graceful, bothSides) on a flow
  control block that has its connection structure first sets FIN (graceful) or RST
  (otherwise) in the flags of the packet. It sets the closing state of this direction to
  BEING_CLOSED_GRACEFUL when graceful and to BEING_CLOSED_UNGRACEFUL otherwise. When
  bothSides is true it sets the closing state of the opposite direction to
  CLOSED_GRACEFUL or CLOSED_UNGRACEFUL respectively and calls sendClosingPacket (with
  graceful, which selects FIN or RST) with the packet's addresses and ports swapped, seq
  the opposite maintainer's mapSeq of the packet's ACK number, and ack the packet's
  sequence number plus its payload length, plus one when the close is graceful or the
  packet has the FIN or SYN flag: the test for FIN reads the flags after FIN has been
  set. When bothSides is false the opposite closing state is unchanged and nothing is
  sent. The call is then passed on to StackElement::closeConnection.\<close>

theorem closeConnection_effect:
  assumes "tcp_common (the_fcb s) = Some a" and "heap s a = Some c"
    and "flowDirection (this_el s) < 2" and "length (closingStates c) = 2"
  shows "\<exists>packet' s' c'.
      closeConnection ops s packet graceful bothSides = Inr (packet', s')
    \<and> packet' = packet\<lparr>th_flags := th_flags packet OR (if graceful then TH_FIN else TH_RST)\<rparr>
    \<and> heap s' a = Some c'
    \<and> closingStates c' ! getFlowDirection s
          = (if graceful then BEING_CLOSED_GRACEFUL else BEING_CLOSED_UNGRACEFUL)
    \<and> closingStates c' ! getOppositeFlowDirection s
          = (if bothSides then (if graceful then CLOSED_GRACEFUL else CLOSED_UNGRACEFUL)
             else closingStates c ! getOppositeFlowDirection s)
    \<and> trace s' = trace s
          @ (if bothSides
             then [SendClosingPacket (getOppositeFlowDirection s)
                     (getDestinationAddress packet) (getSourceAddress packet)
                     (getDestinationPort packet) (getSourcePort packet)
                     (bsm_mapSeq ops (maintainers c ! getOppositeFlowDirection s)
                        (getAckNumber packet))
                     (getSequenceNumber packet + getPayloadLength packet
                        + (if graceful \<or> isFin packet \<or> isSyn packet then 1 else 0))
                     graceful]
             else [])
          @ [StackCloseConnection packet' graceful bothSides]"
proof -
  let ?d = "getFlowDirection s" and ?o = "getOppositeFlowDirection s"
  have neq: "?d \<noteq> ?o" and d: "?d < length (closingStates c)"
    and o: "?o < length (closingStates c)"
    using assms(3,4) by (simp_all add: getFlowDirection_def getOppositeFlowDirection_def) arith
  have live: "deref_tcp_common s = Inr (a, c)"
    using assms(1,2) by (rule deref_tcp_common_live)
  show ?thesis
    using neq d o
    by (cases graceful; cases bothSides)
       (simp_all add: closeConnection_def live Let_def)
qed

theorem closeConnection_effect_witness:
  "\<exists>packet' s' c'.
      closeConnection ex_ops
        (ex_state (ex_common (ex_maintainer 0 0) (ex_maintainer 3 0) OPEN OPEN))
        (ex_packet 2000 6000 0x10 [1, 2, 3]) True True = Inr (packet', s')
    \<and> packet' = ex_packet 2000 6000 0x11 [1, 2, 3]
    \<and> heap s' 7 = Some c'
    \<and> closingStates c' ! 0 = BEING_CLOSED_GRACEFUL
    \<and> closingStates c' ! 1 = CLOSED_GRACEFUL
    \<and> trace s' = [SendClosingPacket 1 0x0A000002 0x0A000001 80 40000 6003 2004 True,
                    StackCloseConnection packet' True True]"
  using closeConnection_effect [of
      "ex_state (ex_common (ex_maintainer 0 0) (ex_maintainer 3 0) OPEN OPEN)"
      7 "ex_common (ex_maintainer 0 0) (ex_maintainer 3 0) OPEN OPEN" ex_ops
      "ex_packet 2000 6000 0x10 [1, 2, 3]" True True]
  by (simp add: getFlowDirection_def getOppositeFlowDirection_def getDestinationAddress_def
      getSourceAddress_def getDestinationPort_def getSourcePort_def getAckNumber_def
      getSequenceNumber_def ex_maintainer_def ex_ops_def TH_FIN_def)
     (auto simp: ex_packet_def)

text \<open>A graceful close of both sides on a packet with sequence number 2000, no payload
  and only the ACK flag: the closing packet acknowledges 2001, not 2000.\<close>

theorem closeConnection_counterexample:
  "observed (closeConnection ex_ops
        (ex_state (ex_common (ex_maintainer 0 0) (ex_maintainer 3 0) OPEN OPEN))
        (ex_packet 2000 6000 0x10 []) True True)
   = Inr (ex_packet 2000 6000 0x11 [],
          [SendClosingPacket 1 0x0A000002 0x0A000001 80 40000 6003 2001 True,
           StackCloseConnection (ex_packet 2000 6000 0x11 []) True True])
   \<and> \<not> isFin (ex_packet 2000 6000 0x10 []) \<and> \<not> isSyn (ex_packet 2000 6000 0x10 [])
   \<and> getSequenceNumber (ex_packet 2000 6000 0x10 [])
        + getPayloadLength (ex_packet 2000 6000 0x10 []) = 2000"
  by code_simp




subsection \<open>Byte editing hooks and the stack\<close>

lemma addModification_frame:
  assumes "addModification s packet position len = Inr s1"
  shows "trace s1 = trace s"
  using assms
  by (auto simp: addModification_def getModificationList_def Let_def
      split: sum.splits option.splits prod.splits if_splits)

text \<open>The hooks need the pool pointer that processPacket sets: with the pointer still NULL
  and no list stored for the packet, creating the list dereferences it.\<close>

lemma insertBytes_needs_pool:
  assumes "\<not> poolModificationLists (tcpin (the_fcb s))"
    and "modificationLists (tcpin (the_fcb s)) (getSequenceNumber packet) = None"
  shows "insertBytes s packet position len = Inl NullPointerDereference"
  using assms by (simp add: insertBytes_def addModification_def getModificationList_def Let_def)

text \<open>C5 on the code. A call of insertBytes that returns leaves the trace as it was: after
  its local edit (the entry in the modification list, the growth of the packet, the move
  of the tail) TCPIn::insertBytes returns the packet and makes no call to
  StackElement::insertBytes, so the rest of the stack does not see the insertion.\<close>

theorem insertBytes_not_forwarded:
  assumes "insertBytes s packet position len = Inr (packet', s')"
  shows "trace s' = trace s"
  using assms
  by (auto simp: insertBytes_def Let_def dest: addModification_frame
      split: sum.splits prod.splits)

text \<open>removeBytes does continue in the stack: after its local edit it calls
  StackElement::removeBytes with the shrunk packet, the position moved by the content
  offset, and the length.\<close>

lemma removeBytes_forwarded:
  assumes "removeBytes s packet position len = Inr (packet', s')"
  shows "trace s' = trace s @ [StackRemoveBytes packet' (position + ucast (getContentOffset packet)) len]"
  using assms
  by (auto simp: removeBytes_def Let_def emit_def dest: addModification_frame
      split: sum.splits prod.splits)

text \<open>The concrete calls are made on the flow control block as processPacket leaves it,
  with the two pool pointers set.\<close>

lemma ex_pools_set:
  "poolModificationLists (tcpin (the_fcb (ensurePools s)))"
  "modificationLists (tcpin (the_fcb (ensurePools (ex_state c)))) = Map.empty"
  by (simp_all add: ensurePools_def ex_state_def ex_fcb_tcpin_def)

lemma insertBytes_ex_returns:
  "\<exists>packet' s'. insertBytes
      (ensurePools (ex_state (ex_common (ex_maintainer 0 0) (ex_maintainer 0 0) OPEN OPEN)))
      (ex_packet 1001 5001 0x18 [65, 65, 65, 67, 67, 67]) 3 2 = Inr (packet', s')"
  by (simp add: insertBytes_def addModification_def getModificationList_def ex_pools_set
      Let_def pkt_memmove_def memmove_def pkt_put_def ex_packet_def
      pkt_length_def getContentOffset_def getSequenceNumber_def)

theorem insertBytes_not_forwarded_witness:
  "\<exists>packet' s'. insertBytes
      (ensurePools (ex_state (ex_common (ex_maintainer 0 0) (ex_maintainer 0 0) OPEN OPEN)))
      (ex_packet 1001 5001 0x18 [65, 65, 65, 67, 67, 67]) 3 2 = Inr (packet', s')
    \<and> trace s' = []"
proof -
  obtain packet' s' where r: "insertBytes
      (ensurePools (ex_state (ex_common (ex_maintainer 0 0) (ex_maintainer 0 0) OPEN OPEN)))
      (ex_packet 1001 5001 0x18 [65, 65, 65, 67, 67, 67]) 3 2 = Inr (packet', s')"
    using insertBytes_ex_returns by blast
  from insertBytes_not_forwarded [OF r] have "trace s' = []" by simp
  with r show ?thesis by blast
qed

lemma removeBytes_ex_forwards:
  "observed (removeBytes
      (ensurePools (ex_state (ex_common (ex_maintainer 0 0) (ex_maintainer 0 0) OPEN OPEN)))
      (ex_packet 1001 5001 0x18 [65, 65, 65, 66, 66, 66, 67, 67, 67]) 3 3)
   = Inr ((ex_packet 1001 5001 0x18 [65, 65, 65, 66, 66, 66, 67, 67, 67])
            \<lparr>pkt_data := replicate 40 0 @ [65, 65, 65, 67, 67, 67],
             pkt_tailroom := replicate 19 0\<rparr>,
          [StackRemoveBytes
             ((ex_packet 1001 5001 0x18 [65, 65, 65, 66, 66, 66, 67, 67, 67])
                \<lparr>pkt_data := replicate 40 0 @ [65, 65, 65, 67, 67, 67],
                 pkt_tailroom := replicate 19 0\<rparr>) 43 3])"
  by code_simp

text \<open>On the flow control block before processPacket has run, the same call does not
  return.\<close>

lemma insertBytes_ex_without_pool:
  "insertBytes (ex_state (ex_common (ex_maintainer 0 0) (ex_maintainer 0 0) OPEN OPEN))
      (ex_packet 1001 5001 0x18 [65, 65, 65, 67, 67, 67]) 3 2 = Inl NullPointerDereference"
  by (rule insertBytes_needs_pool) (simp_all add: ex_state_def ex_fcb_tcpin_def)

subsection \<open>The content iterator\<close>

lemma skipToContent_loop_left: "iter_loop_left (skipToContent ps off)"
  by (induction ps arbitrary: off) (auto simp: iter_loop_left_def not_le)

lemma unat_ucast_16_32 [simp]: "unat (ucast (x :: 16 word) :: 32 word) = unat x"
proof -
  have "unat x < 2 ^ 32" using unsigned_less [of x, where 'a = nat] by simp
  then show ?thesis by (simp add: unsigned_ucast_eq take_bit_nat_eq_self)
qed

lemma unat_16_bound: "unat (x :: 16 word) < 65536"
  using unsigned_less [of x, where 'a = nat] by simp

lemma loop_test_nat:
  assumes "length (pkt_data p) < 2 ^ 32" and "unat (getContentOffset p) + unat off < 2 ^ 32"
  shows "(ucast (getContentOffset p) + off \<ge> pkt_length p)
         \<longleftrightarrow> length (pkt_data p) \<le> unat (getContentOffset p) + unat off"
proof -
  have l: "unat (pkt_length p) = length (pkt_data p)"
    using assms(1) by (simp add: pkt_length_def unat_of_nat)
  have "unat (ucast (getContentOffset p) :: 32 word) + unat off < 2 ^ LENGTH(32)"
    using assms(2) by simp
  then have s: "unat (ucast (getContentOffset p) + off) = unat (getContentOffset p) + unat off"
    by (simp add: unat_add_lem [THEN iffD1])
  show ?thesis by (simp add: word_le_nat_alt l s)
qed

lemma skipToContent_on_payload:
  assumes "packets_ok ps"
    and "ps \<noteq> [] \<Longrightarrow> unat (getContentOffset (hd ps)) + unat off < 2 ^ 32"
  shows "iter_on_payload (skipToContent ps off) \<and> packets_ok (entry (skipToContent ps off))"
  using assms
proof (induction ps arbitrary: off)
  case Nil
  then show ?case by (simp add: iter_on_payload_def packets_ok_def)
next
  case (Cons p ps)
  have len: "length (pkt_data p) < 2 ^ 32" and ok: "packets_ok ps"
    using Cons.prems(1) by (simp_all add: packets_ok_def)
  have nw: "unat (getContentOffset p) + unat off < 2 ^ 32"
    using Cons.prems(2) by simp
  note t = loop_test_nat [OF len nw]
  show ?case
  proof (cases "length (pkt_data p) \<le> unat (getContentOffset p) + unat off")
    case True
    have "ps \<noteq> [] \<Longrightarrow> unat (getContentOffset (hd ps)) + unat (0 :: 32 word) < 2 ^ 32"
      using unat_16_bound [of "getContentOffset (hd ps)"] by simp
    with Cons.IH [OF ok, of 0] True t show ?thesis by simp
  next
    case False
    with t Cons.prems(1) show ?thesis by (simp add: iter_on_payload_def)
  qed
qed

lemma new_iter_on_payload:
  assumes "packets_ok packets" and "0 \<le> pos" and "pos < 2 ^ 31"
  shows "iter_on_payload (newFlowBufferContentIter packets pos)
         \<and> packets_ok (entry (newFlowBufferContentIter packets pos))"
proof -
  have "unat (word_of_int pos :: 32 word) = nat pos"
    using assms(2,3) by (simp add: unat_eq_nat_uint uint_word_of_int)
  moreover have "nat pos < 2 ^ 31" using assms(2,3) by simp
  ultimately have "unat (getContentOffset p) + unat (word_of_int pos :: 32 word) < 2 ^ 32" for p
    using unat_16_bound [of "getContentOffset p"] by simp
  then show ?thesis
    unfolding newFlowBufferContentIter_def
    by (intro skipToContent_on_payload assms(1)) simp
qed

lemma iter_next_on_payload:
  assumes "packets_ok (entry it)" and "iter_on_payload it" and "entry it \<noteq> []"
  shows "\<exists>it'. iter_next it = Inr it' \<and> iter_on_payload it' \<and> packets_ok (entry it')"
proof -
  from assms(3) obtain p ps where e: "entry it = p # ps" by (cases "entry it") auto
  have len: "length (pkt_data p) < 2 ^ 32" using assms(1) e by (simp add: packets_ok_def)
  have v: "unat (getContentOffset p) + unat (offsetInPacket it) < length (pkt_data p)"
    using assms(2) e by (simp add: iter_on_payload_def)
  then have "unat (offsetInPacket it) + 1 < 2 ^ 32" using len by simp
  then have u: "unat (offsetInPacket it + 1) = unat (offsetInPacket it) + 1"
    by (simp add: unat_add_lem [THEN iffD1])
  have "unat (getContentOffset (hd (p # ps))) + unat (offsetInPacket it + 1) < 2 ^ 32"
    using v len u by simp
  with skipToContent_on_payload [of "p # ps" "offsetInPacket it + 1"] assms(1) e
  show ?thesis by (simp add: iter_next_def)
qed

lemma iter_deref_on_payload:
  assumes "iter_on_payload it" and "entry it = p # ps"
  shows "unat (offsetInPacket it) < length (payload p)
       \<and> iter_deref it = Inr (unat (getContentOffset p) + unat (offsetInPacket it),
              payload p ! unat (offsetInPacket it))"
  using assms by (simp add: iter_on_payload_def iter_deref_def payload_def Let_def less_diff_conv add.commute)


text \<open>C10, as the code has it. After the construction of a FlowBufferContentIter and after
  every increment the entry is NULL or \<open>getContentOffset() + offsetInPacket < length()\<close>
  holds in the unsigned 32-bit arithmetic of the source (first two parts, for every
  position and every iterator). When the iterator is constructed with a position
  \<open>0 \<le> posInFirstPacket\<close> (third part), the sum does not wrap around, and this is
  kept by every increment (fourth part); then the current entry is a packet that has
  payload, and dereferencing yields the payload byte of that packet at offsetInPacket
  (fifth part).\<close>

theorem content_iterator_invariant:
  "iter_loop_left (newFlowBufferContentIter packets pos)
   \<and> (entry it \<noteq> [] \<longrightarrow> (\<exists>it'. iter_next it = Inr it' \<and> iter_loop_left it'))
   \<and> (packets_ok packets \<and> 0 \<le> pos \<and> pos < 2 ^ 31 \<longrightarrow>
        packets_ok (entry (newFlowBufferContentIter packets pos))
        \<and> iter_on_payload (newFlowBufferContentIter packets pos))
   \<and> (packets_ok (entry it) \<and> iter_on_payload it \<and> entry it \<noteq> [] \<longrightarrow>
        (\<exists>it'. iter_next it = Inr it' \<and> packets_ok (entry it') \<and> iter_on_payload it'))
   \<and> (iter_on_payload it \<and> entry it = p # ps \<longrightarrow>
        payload p \<noteq> []
        \<and> unat (offsetInPacket it) < length (payload p)
        \<and> iter_deref it = Inr (unat (getContentOffset p) + unat (offsetInPacket it),
              payload p ! unat (offsetInPacket it)))"
proof (intro conjI impI)
  show "iter_loop_left (newFlowBufferContentIter packets pos)"
    by (simp add: newFlowBufferContentIter_def skipToContent_loop_left)
next
  assume "entry it \<noteq> []"
  then show "\<exists>it'. iter_next it = Inr it' \<and> iter_loop_left it'"
    by (cases "entry it") (simp_all add: iter_next_def skipToContent_loop_left del: skipToContent.simps)
next
  assume a: "packets_ok packets \<and> 0 \<le> pos \<and> pos < 2 ^ 31"
  then show "packets_ok (entry (newFlowBufferContentIter packets pos))"
    and "iter_on_payload (newFlowBufferContentIter packets pos)"
    using new_iter_on_payload [of packets pos] by simp_all
next
  assume "packets_ok (entry it) \<and> iter_on_payload it \<and> entry it \<noteq> []"
  then show "\<exists>it'. iter_next it = Inr it' \<and> packets_ok (entry it') \<and> iter_on_payload it'"
    using iter_next_on_payload [of it] by blast
next
  assume a: "iter_on_payload it \<and> entry it = p # ps"
  then show "unat (offsetInPacket it) < length (payload p)"
    and "iter_deref it = Inr (unat (getContentOffset p) + unat (offsetInPacket it),
              payload p ! unat (offsetInPacket it))"
    using iter_deref_on_payload [of it p ps] by simp_all
  then show "payload p \<noteq> []" by auto
qed

lemma ex_two_packets_ok:
  "packets_ok [ex_packet 1 1 0x10 [], ex_packet 1 1 0x18 [7, 8]]"
  by (simp add: packets_ok_def ex_packet_def)

lemma ex_two_packets_begin:
  "newFlowBufferContentIter [ex_packet 1 1 0x10 [], ex_packet 1 1 0x18 [7, 8]] 0
   = \<lparr>entry = [ex_packet 1 1 0x18 [7, 8]], offsetInPacket = 0\<rparr>"
  by (simp add: newFlowBufferContentIter_def pkt_length_def getContentOffset_def ex_packet_def)

theorem content_iterator_invariant_witness:
  "entry (newFlowBufferContentIter [ex_packet 1 1 0x10 [], ex_packet 1 1 0x18 [7, 8]] 0)
     = [ex_packet 1 1 0x18 [7, 8]]
   \<and> iter_deref (newFlowBufferContentIter [ex_packet 1 1 0x10 [], ex_packet 1 1 0x18 [7, 8]] 0)
     = Inr (40, 7)
   \<and> (\<exists>it'. iter_next (newFlowBufferContentIter
                  [ex_packet 1 1 0x10 [], ex_packet 1 1 0x18 [7, 8]] 0) = Inr it'
         \<and> iter_on_payload it')"
proof -
  let ?ps = "[ex_packet 1 1 0x10 [], ex_packet 1 1 0x18 [7, 8]]"
  let ?it = "newFlowBufferContentIter ?ps 0"
  note t = content_iterator_invariant [of ?ps 0 ?it "ex_packet 1 1 0x18 [7, 8]" "[]"]
  have e: "entry ?it = [ex_packet 1 1 0x18 [7, 8]]" and o: "offsetInPacket ?it = 0"
    by (simp_all add: ex_two_packets_begin)
  have pre: "packets_ok ?ps \<and> (0 :: int) \<le> 0 \<and> (0 :: int) < 2 ^ 31"
    using ex_two_packets_ok by simp
  with t have v: "packets_ok (entry ?it) \<and> iter_on_payload ?it" by blast
  with t e have n: "\<exists>it'. iter_next ?it = Inr it' \<and> packets_ok (entry it') \<and> iter_on_payload it'"
    by (metis list.distinct(1))
  from t v e have "iter_deref ?it = Inr (unat (getContentOffset (ex_packet 1 1 0x18 [7, 8]))
        + unat (offsetInPacket ?it), payload (ex_packet 1 1 0x18 [7, 8]) ! unat (offsetInPacket ?it))"
    by blast
  then have d: "iter_deref ?it = Inr (40, 7)"
    unfolding o by (simp add: payload_def getContentOffset_def ex_packet_def)
  from e d n show ?thesis by blast
qed

text \<open>Constructed with position -40 on a packet that has 40 bytes of headers and no payload,
  the iterator satisfies the comparison of the source (40 + (2^32 - 40) wraps to 0), its
  entry is that packet, and dereferencing it reads behind the data of the packet.\<close>

lemma ex_negative_begin:
  "newFlowBufferContentIter [ex_packet 1 1 0x10 []] (- 40)
   = \<lparr>entry = [ex_packet 1 1 0x10 []], offsetInPacket = - 40\<rparr>"
  by (simp add: newFlowBufferContentIter_def pkt_length_def getContentOffset_def ex_packet_def)

theorem content_iterator_counterexample:
  "entry (newFlowBufferContentIter [ex_packet 1 1 0x10 []] (- 40)) = [ex_packet 1 1 0x10 []]
   \<and> payload (ex_packet 1 1 0x10 []) = []
   \<and> iter_loop_left (newFlowBufferContentIter [ex_packet 1 1 0x10 []] (- 40))
   \<and> iter_deref (newFlowBufferContentIter [ex_packet 1 1 0x10 []] (- 40)) = Inl BufferOverrun"
  unfolding ex_negative_begin
  by (simp add: payload_def iter_loop_left_def iter_deref_def
      getContentOffset_def pkt_length_def ex_packet_def)



subsection \<open>Searching the flow buffer\<close>

lemma match_here_values: "match_here pat cs = 1 \<or> match_here pat cs = 0 \<or> match_here pat cs = - 1"
  by (induction pat cs rule: match_here.induct) auto

lemma match_here_found: "match_here pat cs = 1 \<longleftrightarrow> prefix pat cs"
  by (induction pat cs rule: match_here.induct) auto

lemma match_here_partial: "match_here pat cs = 0 \<longleftrightarrow> strict_prefix cs pat"
  by (induction pat cs rule: match_here.induct) auto

lemma search_content_values:
  "search_content pat cs = 1 \<or> search_content pat cs = 0 \<or> search_content pat cs = - 1"
  using match_here_values
  by (induction cs) (auto simp: Let_def)

lemma search_content_found:
  assumes "pat \<noteq> []"
  shows "search_content pat cs = 1 \<longleftrightarrow> sublist pat cs"
  using assms
  by (induction cs) (auto simp: Let_def match_here_found sublist_Cons_right)

lemma search_content_partial:
  assumes "pat \<noteq> []"
  shows "search_content pat cs = 0 \<longleftrightarrow>
         \<not> sublist pat cs \<and> (\<exists>q. q \<noteq> [] \<and> strict_prefix q pat \<and> suffix q cs)"
  using assms
proof (induction cs)
  case Nil
  then show ?case by simp
next
  case (Cons c cs)
  have q: "(\<exists>q. q \<noteq> [] \<and> strict_prefix q pat \<and> suffix q (c # cs))
      \<longleftrightarrow> strict_prefix (c # cs) pat \<or> (\<exists>q. q \<noteq> [] \<and> strict_prefix q pat \<and> suffix q cs)"
    by (auto simp: suffix_Cons)
  have s: "sublist pat (c # cs) \<longleftrightarrow> prefix pat (c # cs) \<or> sublist pat cs"
    by (simp add: sublist_Cons_right)
  show ?case
    unfolding q s
    using Cons match_here_values [of pat "c # cs"] search_content_values [of pat cs]
    by (auto simp: Let_def match_here_found match_here_partial search_content_found)
qed


lemma proper_prefix_suffix_iff:
  "(\<exists>q. q \<noteq> [] \<and> strict_prefix q pat \<and> suffix q cs)
   \<longleftrightarrow> (\<exists>q r xs. q \<noteq> [] \<and> r \<noteq> [] \<and> pat = q @ r \<and> cs = xs @ q)"
  by (auto simp: strict_prefix_def prefix_def suffix_def)

text \<open>C9. For every buffered content and every non-empty pattern, searchInFlow returns 1
  exactly when the pattern occurs as a whole inside the content of the buffer; 0 exactly
  when it does not occur but a non-empty proper prefix of the pattern is a suffix of the
  content; and -1 exactly when neither holds. The content of the buffer is the
  concatenation of the payloads of its packets, so an occurrence may span packets.\<close>

theorem searchInFlow_ternary:
  assumes "pattern \<noteq> []"
  shows "(searchInFlow fb pattern = 1
            \<longleftrightarrow> (\<exists>xs ys. flowContent fb = xs @ pattern @ ys))
       \<and> (searchInFlow fb pattern = 0
            \<longleftrightarrow> \<not> (\<exists>xs ys. flowContent fb = xs @ pattern @ ys)
                \<and> (\<exists>q r xs. q \<noteq> [] \<and> r \<noteq> [] \<and> pattern = q @ r \<and> flowContent fb = xs @ q))
       \<and> (searchInFlow fb pattern = - 1
            \<longleftrightarrow> \<not> (\<exists>xs ys. flowContent fb = xs @ pattern @ ys)
                \<and> \<not> (\<exists>q r xs. q \<noteq> [] \<and> r \<noteq> [] \<and> pattern = q @ r \<and> flowContent fb = xs @ q))"
proof -
  define cs where "cs = flowContent fb"
  define A where "A \<longleftrightarrow> (\<exists>xs ys. cs = xs @ pattern @ ys)"
  define B where "B \<longleftrightarrow> (\<exists>q r xs. q \<noteq> [] \<and> r \<noteq> [] \<and> pattern = q @ r \<and> cs = xs @ q)"
  define r where "r = search_content pattern cs"
  have f: "r = 1 \<longleftrightarrow> A"
    using search_content_found [OF assms, of cs] by (simp add: sublist_def A_def r_def)
  have p: "r = 0 \<longleftrightarrow> \<not> A \<and> B"
    using search_content_partial [OF assms, of cs]
    by (simp add: sublist_def proper_prefix_suffix_iff A_def B_def r_def)
  have v: "r = 1 \<or> r = 0 \<or> r = - 1"
    using search_content_values [of pattern cs] by (simp add: r_def)
  have "(r = 1 \<longleftrightarrow> A) \<and> (r = 0 \<longleftrightarrow> \<not> A \<and> B) \<and> (r = - 1 \<longleftrightarrow> \<not> A \<and> \<not> B)"
    using f p v by auto
  then show ?thesis
    by (simp add: searchInFlow_def A_def B_def r_def cs_def)
qed

lemma ex_flow_content:
  "flowContent [ex_packet 1001 1 0x18 [70, 79, 79], ex_packet 1004 1 0x18 [66, 65, 82]]
   = [70, 79, 79, 66, 65, 82]"
  by (simp add: flowContent_def payload_def getContentOffset_def ex_packet_def)

theorem searchInFlow_ternary_witness:
  "searchInFlow [ex_packet 1001 1 0x18 [70, 79, 79], ex_packet 1004 1 0x18 [66, 65, 82]]
      [79, 79, 66, 65] = 1
   \<and> (\<exists>xs ys. flowContent [ex_packet 1001 1 0x18 [70, 79, 79], ex_packet 1004 1 0x18 [66, 65, 82]]
         = xs @ [79, 79, 66, 65] @ ys)
   \<and> searchInFlow [ex_packet 1001 1 0x18 [70, 79, 79], ex_packet 1004 1 0x18 [66, 65, 82]]
      [65, 82, 88] = 0
   \<and> searchInFlow [ex_packet 1001 1 0x18 [70, 79, 79], ex_packet 1004 1 0x18 [66, 65, 82]]
      [88, 89] = - 1"
proof -
  let ?fb = "[ex_packet 1001 1 0x18 [70, 79, 79], ex_packet 1004 1 0x18 [66, 65, 82]]"
  have a: "searchInFlow ?fb [79, 79, 66, 65] = 1"
    and b: "searchInFlow ?fb [65, 82, 88] = 0"
    and c: "searchInFlow ?fb [88, 89] = - 1"
    unfolding searchInFlow_def ex_flow_content by simp_all
  have "[79, 79, 66, 65] \<noteq> ([] :: byte list)" by simp
  from searchInFlow_ternary [OF this, of ?fb] a
  have "\<exists>xs ys. flowContent ?fb = xs @ [79, 79, 66, 65] @ ys" by simp
  with a b c show ?thesis by blast
qed




subsection \<open>Sequence translation\<close>



lemma fold_max_Max: "fold max ks (k :: tcp_seq_t) = Max (set (k # ks))"
  by (rule Max.set_eq_fold [symmetric])

text \<open>C6, as far as it holds. For every set of modifications and every original sequence
  number s such that mapSeq keeps the order between s and each edited key,
  \<open>mapAck (mapSeq s) = s\<close>, in the 32-bit arithmetic of sequence numbers: the largest
  edited key whose image is at or before \<open>mapSeq s\<close> is then the largest edited key
  at or before s, no delta lies between the two, and when there is no such key both
  functions leave the number unchanged.\<close>

theorem mapAck_mapSeq_round_trip:
  assumes "order_kept M s"
  shows "mapAck M (mapSeq M s) = s"
proof -
  let ?ks = "filter (\<lambda>k. k \<le> s) (map fst M)"
  have ks: "filter (\<lambda>k. mapSeq M k \<le> mapSeq M s) (map fst M) = ?ks"
    using assms by (intro filter_cong refl) (auto simp: order_kept_def list_all_iff)
  show ?thesis
  proof (cases ?ks)
    case Nil
    then have "filter (\<lambda>(k, d). k \<le> s) M = []"
      by (auto simp: filter_empty_conv)
    then have "mapSeq M s = s" by (simp add: mapSeq_def)
    with Nil ks show ?thesis by (simp add: mapAck_def)
  next
    case (Cons k0 ks')
    define ke where "ke = fold max ks' k0"
    have "ke = Max (set ?ks)" by (simp add: ke_def fold_max_Max Cons)
    moreover have "set ?ks \<noteq> {}" using Cons by (simp del: set_filter)
    ultimately have mem: "ke \<in> set ?ks" and top: "\<And>k. k \<in> set ?ks \<Longrightarrow> k \<le> ke"
      using Max_in [of "set ?ks"] Max_ge [of "set ?ks"] by (simp_all del: set_filter)
    from mem have le: "ke \<le> s" by simp
    have "filter (\<lambda>(k, d). k \<le> s) M = filter (\<lambda>(k, d). k \<le> ke) M"
    proof (rule filter_cong [OF refl])
      fix x assume x: "x \<in> set M"
      obtain k d where xd: "x = (k, d)" by (cases x)
      have "k \<le> s \<Longrightarrow> k \<le> ke"
        using top [of k] x xd by force
      with le show "(case x of (k, d) \<Rightarrow> k \<le> s) = (case x of (k, d) \<Rightarrow> k \<le> ke)"
        by (auto simp: xd)
    qed
    then have "mapSeq M s - mapSeq M ke = s - ke" by (simp add: mapSeq_def)
    then show ?thesis
      by (simp add: mapAck_def ks Cons Let_def ke_def [symmetric])
  qed
qed

text \<open>Without edits both translations are the identity.\<close>

lemma no_edits: "mapSeq [] s = s" "mapAck [] a = a"
  by (simp_all add: mapSeq_def mapAck_def)


lemma uint_add_int:
  assumes "0 \<le> uint x + d" and "uint x + d < 2 ^ 32"
  shows "uint (x + word_of_int d :: 32 word) = uint x + d"
proof -
  have "uint (x + word_of_int d :: 32 word) = (uint x + uint (word_of_int d :: 32 word)) mod 2 ^ 32"
    by (simp add: uint_word_ariths)
  also have "\<dots> = (uint x + d) mod 2 ^ 32"
    by (simp add: uint_word_of_int mod_add_right_eq)
  also have "\<dots> = uint x + d" using assms by simp
  finally show ?thesis .
qed

lemma sum_deltas_bounds:
  fixes M :: modifications
  assumes "list_all (\<lambda>(k, d). 0 \<le> d) M"
  shows "0 \<le> sum_list (map snd (filter (\<lambda>(k, d). k \<le> x) M))"
    and "sum_list (map snd (filter (\<lambda>(k, d). k \<le> x) M)) \<le> sum_list (map snd M)"
    and "x \<le> y \<Longrightarrow> sum_list (map snd (filter (\<lambda>(k, d). k \<le> x) M))
                  \<le> sum_list (map snd (filter (\<lambda>(k, d). k \<le> y) M))"
  using assms by (induction M) auto

text \<open>The order is kept at every s when only insertions are recorded and neither s nor an
  edited key is moved past 2^32 by them.\<close>
lemma insertions_keep_order:
  fixes M :: modifications
  assumes ins: "list_all (\<lambda>(k, d). 0 \<le> d) M"
    and s: "uint s + sum_list (map snd M) < 2 ^ 32"
    and keys: "list_all (\<lambda>k. uint k + sum_list (map snd M) < 2 ^ 32) (map fst M)"
  shows "order_kept M s"
proof -
  let ?D = "\<lambda>x. sum_list (map snd (filter (\<lambda>(k, d). k \<le> x) M))"
  have img: "uint (mapSeq M x) = uint x + ?D x" if "uint x + sum_list (map snd M) < 2 ^ 32" for x
  proof -
    have "0 \<le> uint x + ?D x" using sum_deltas_bounds(1) [OF ins, of x] by simp
    moreover have "uint x + ?D x < 2 ^ 32" using sum_deltas_bounds(2) [OF ins, of x] that by simp
    ultimately show ?thesis unfolding mapSeq_def by (rule uint_add_int)
  qed
  have "(k \<le> s) = (mapSeq M k \<le> mapSeq M s)" if "k \<in> set (map fst M)" for k
  proof -
    have kb: "uint k + sum_list (map snd M) < 2 ^ 32"
      using keys that by (auto simp: list_all_iff)
    show ?thesis
    proof (cases "k \<le> s")
      case True
      then have "uint k \<le> uint s" by (simp add: word_le_def)
      with sum_deltas_bounds(3) [OF ins True] True show ?thesis
        by (simp add: word_le_def img [OF kb] img [OF s])
    next
      case False
      then have "s \<le> k" and lt: "uint s < uint k" by (simp_all add: word_le_def not_le word_less_def)
      with sum_deltas_bounds(3) [OF ins \<open>s \<le> k\<close>] False show ?thesis
        by (simp add: word_le_def img [OF kb] img [OF s])
    qed
  qed
  then show ?thesis by (simp add: order_kept_def list_all_iff)
qed

text \<open>With one deletion of \<open>- d\<close> bytes recorded at key k, the order is kept at
  every s but those of the deleted range, from \<open>k + d\<close> up to \<open>k - 1\<close>: these
  are the only ones for which the round trip is not claimed.\<close>
lemma deletion_keeps_order_iff:
  assumes "d \<le> 0" and "0 \<le> uint k + d"
  shows "order_kept [(k, d)] s \<longleftrightarrow> \<not> (uint k + d \<le> uint s \<and> s < k)"
proof -
  have kb: "uint k + d < 2 ^ 32" using assms(1) uint_lt2p [of k] by simp
  have mk: "uint (mapSeq [(k, d)] k) = uint k + d"
    using uint_add_int [OF assms(2) kb] by (simp add: mapSeq_def)
  show ?thesis
  proof (cases "k \<le> s")
    case True
    then have ks: "uint k \<le> uint s" by (simp add: word_le_def)
    have "0 \<le> uint s + d" and "uint s + d < 2 ^ 32"
      using ks assms uint_lt2p [of s] by simp_all
    then have "uint (mapSeq [(k, d)] s) = uint s + d"
      using True uint_add_int [of s d] by (simp add: mapSeq_def)
    with True ks mk show ?thesis by (simp add: order_kept_def word_le_def not_less)
  next
    case False
    then have "mapSeq [(k, d)] s = s" by (simp add: mapSeq_def)
    with False mk show ?thesis by (auto simp: order_kept_def word_le_def word_less_def not_le)
  qed
qed


text \<open>Inside the deleted range the round trip is off by the length of the deletion.\<close>

lemma deletion_range_round_trip:
  assumes "d \<le> 0" and "0 \<le> uint k + d" and "uint k + d \<le> uint s" and "s < k"
  shows "mapAck [(k, d)] (mapSeq [(k, d)] s) = s - word_of_int d"
proof -
  have kb: "uint k + d < 2 ^ 32" using assms(1) uint_lt2p [of k] by simp
  have mk: "uint (mapSeq [(k, d)] k) = uint k + d"
    using uint_add_int [OF assms(2) kb] by (simp add: mapSeq_def)
  have "\<not> k \<le> s" using assms(4) by (simp add: not_le)
  then have ms: "mapSeq [(k, d)] s = s" by (simp add: mapSeq_def)
  have "mapSeq [(k, d)] k \<le> s" using mk assms(3) by (simp add: word_le_def)
  then show ?thesis
    unfolding ms by (simp add: mapAck_def) (simp add: mapSeq_def)
qed

theorem mapAck_mapSeq_round_trip_witness:
  "order_kept (recorded [(1007, - 3)]) 1010
   \<and> mapSeq (recorded [(1007, - 3)]) 1010 = 1007
   \<and> mapAck (recorded [(1007, - 3)]) (mapSeq (recorded [(1007, - 3)]) 1010) = 1010
   \<and> order_kept (recorded [(1004, 3)]) 1004
   \<and> mapSeq (recorded [(1004, 3)]) 1004 = 1007
   \<and> mapAck (recorded [(1004, 3)]) (mapSeq (recorded [(1004, 3)]) 1004) = 1004"
proof -
  have d: "order_kept (recorded [(1007, - 3)]) 1010"
    and i: "order_kept (recorded [(1004, 3)]) 1004"
    by (simp_all add: order_kept_def mapSeq_def)
  have "mapSeq (recorded [(1007, - 3)]) 1010 = 1007"
    and "mapSeq (recorded [(1004, 3)]) 1004 = 1007"
    by (simp_all add: mapSeq_def)
  with d i mapAck_mapSeq_round_trip [OF d] mapAck_mapSeq_round_trip [OF i]
  show ?thesis by simp
qed

text \<open>With the deletion of three bytes recorded at key 1007 (the numbers of the spec's
  scenario S2), mapSeq sends both 1004 and 1007 to 1004, and mapAck sends 1004 back to
  1007, not to 1004; 1004 lies before the last edit.\<close>

theorem mapAck_mapSeq_counterexample:
  "mapSeq (recorded [(1007, - 3)]) 1004 = 1004
   \<and> mapSeq (recorded [(1007, - 3)]) 1007 = 1004
   \<and> mapAck (recorded [(1007, - 3)]) (mapSeq (recorded [(1007, - 3)]) 1004) = 1007
   \<and> (1004 :: tcp_seq_t) \<le> 1007"
  by (simp add: mapSeq_def mapAck_def)

subsection \<open>The iterator and the content of the buffer\<close>

lemma skipToContent_rest:
  assumes "packets_ok ps"
    and "ps \<noteq> [] \<Longrightarrow> unat (getContentOffset (hd ps)) + unat off < 2 ^ 32"
  shows "iter_rest (skipToContent ps off)
         = (case ps of [] \<Rightarrow> [] | p # ps' \<Rightarrow> drop (unat off) (payload p) @ flowContent ps')"
  using assms
proof (induction ps arbitrary: off)
  case Nil
  then show ?case by (simp add: iter_rest_def)
next
  case (Cons p ps)
  have len: "length (pkt_data p) < 2 ^ 32" and ok: "packets_ok ps"
    using Cons.prems(1) by (simp_all add: packets_ok_def)
  have nw: "unat (getContentOffset p) + unat off < 2 ^ 32"
    using Cons.prems(2) by simp
  note t = loop_test_nat [OF len nw]
  show ?case
  proof (cases "length (pkt_data p) \<le> unat (getContentOffset p) + unat off")
    case True
    have "ps \<noteq> [] \<Longrightarrow> unat (getContentOffset (hd ps)) + unat (0 :: 32 word) < 2 ^ 32"
      using unat_16_bound [of "getContentOffset (hd ps)"] by simp
    from Cons.IH [OF ok this] have "iter_rest (skipToContent ps 0) = flowContent ps"
      by (cases ps) (simp_all add: flowContent_def)
    with True t show ?thesis by (simp add: payload_def)
  next
    case False
    with t show ?thesis by (simp add: iter_rest_def)
  qed
qed

lemma iter_collect_rest:
  assumes "packets_ok (entry it)" and "iter_on_payload it" and "length (iter_rest it) \<le> n"
  shows "iter_collect n it = iter_rest it"
  using assms
proof (induction n arbitrary: it)
  case 0
  then show ?case by simp
next
  case (Suc n)
  show ?case
  proof (cases "entry it")
    case Nil
    then show ?thesis by (simp add: iter_deref_def iter_rest_def)
  next
    case (Cons p ps)
    let ?off = "unat (offsetInPacket it)"
    have d: "?off < length (payload p)"
      and r: "iter_deref it = Inr (unat (getContentOffset p) + ?off, payload p ! ?off)"
      using iter_deref_on_payload [OF Suc.prems(2) Cons] by simp_all
    have len: "length (pkt_data p) < 2 ^ 32" using Suc.prems(1) Cons by (simp add: packets_ok_def)
    have v: "unat (getContentOffset p) + ?off < length (pkt_data p)"
      using Suc.prems(2) Cons by (simp add: iter_on_payload_def)
    then have "?off + 1 < 2 ^ 32" using len by simp
    then have u: "unat (offsetInPacket it + 1) = ?off + 1"
      by (simp add: unat_add_lem [THEN iffD1])
    have nw: "p # ps \<noteq> [] \<Longrightarrow> unat (getContentOffset (hd (p # ps))) + unat (offsetInPacket it + 1) < 2 ^ 32"
      using v len u by simp
    let ?it' = "skipToContent (p # ps) (offsetInPacket it + 1)"
    have nx: "iter_next it = Inr ?it'" using Cons by (simp add: iter_next_def)
    have ok': "packets_ok (entry ?it')" and pl': "iter_on_payload ?it'"
      using skipToContent_on_payload [OF _ nw] Suc.prems(1) Cons by simp_all
    have rest': "iter_rest ?it' = drop (Suc ?off) (payload p) @ flowContent ps"
      using skipToContent_rest [OF _ nw] Suc.prems(1) Cons u by simp
    have rest: "iter_rest it = payload p ! ?off # drop (Suc ?off) (payload p) @ flowContent ps"
      using d Cons by (simp add: iter_rest_def Cons_nth_drop_Suc)
    from Suc.prems(3) rest rest' have "length (iter_rest ?it') \<le> n" by simp
    from Suc.IH [OF ok' pl' this] rest rest' r nx show ?thesis
      by (simp del: skipToContent.simps)
  qed
qed

text \<open>Walked from its first byte with the content iterator, a buffer yields exactly the
  content that searchInFlow is stated over: the payloads of its packets, in order, with
  packets without payload skipped.\<close>

lemma content_iterator_enumerates:
  assumes "packets_ok fb" and "length (flowContent fb) \<le> n"
  shows "iter_collect n (newFlowBufferContentIter fb 0) = flowContent fb"
proof -
  let ?it = "newFlowBufferContentIter fb 0"
  have v: "iter_on_payload ?it \<and> packets_ok (entry ?it)"
    using new_iter_on_payload [OF assms(1), of 0] by simp
  have "fb \<noteq> [] \<Longrightarrow> unat (getContentOffset (hd fb)) + unat (0 :: 32 word) < 2 ^ 32"
    using unat_16_bound [of "getContentOffset (hd fb)"] by simp
  from skipToContent_rest [OF assms(1) this] have r: "iter_rest ?it = flowContent fb"
    by (cases fb) (simp_all add: newFlowBufferContentIter_def flowContent_def)
  with iter_collect_rest [of ?it n] v assms(2) show ?thesis by simp
qed

end
